theory Spec2Isabelle
  imports Main
begin

section \<open>The Heltec WiFi Kit 32 NTP clock\<close>

text \<open>
  An embedding of the sketch \<^verbatim>\<open>NTP_Clock_New2.ino\<close>.
  The sketch is a single cooperative thread: \<open>setup\<close> runs once, then \<open>loop\<close> runs
  for ever. Its own state is three variables: the global flag \<open>bTimeReceived\<close>, the
  global \<open>int start\<close> and the function-local \<open>static int refresh\<close> of \<open>loop\<close>.
  Everything else is a call into the platform (serial port, WiFi, SNTP, the C library's
  time zone environment, the OLED driver, GPIO). Those calls are recorded, in program
  order, in a trace of events; what the platform answers (did \<open>getLocalTime\<close> succeed,
  is the station associated, what does \<open>gettimeofday\<close> read) is an input of the model.
\<close>

subsection \<open>Constants of the sketch\<close>

definition FONT_ONE_HEIGHT :: int where "FONT_ONE_HEIGHT = 8"
definition FONT_TWO_HEIGHT :: int where "FONT_TWO_HEIGHT = 20"
definition UDP_PORT :: nat where "UDP_PORT = 4000"

definition chPassword :: string where "chPassword = ''wifi_password''"
definition chSSID :: string where "chSSID = ''SSID''"

text \<open>The global \<open>String tz\<close>, the POSIX rule handed to every acquisition.\<close>

definition tz :: string where "tz = ''EST5EDT,M3.2.0,M11.1.0''"

text \<open>The literal of the comparison \<open>refresh > 16200\<close> in \<open>loop\<close>.\<close>

definition RESYNC_THRESHOLD :: int where "RESYNC_THRESHOLD = 16200"

subsection \<open>Events: the calls the sketch makes into the platform\<close>

datatype font = Font_6x10_tr | Font_fur20_tn

text \<open>
  What \<open>drawStr\<close> is given. The strings produced by \<open>sprintf\<close> and \<open>strftime\<close> from
  platform values (IP address, RSSI, the broken-down local time) are kept symbolic:
  \<open>DateText t\<close> is \<open>strftime "%a, %d %b %Y"\<close> and \<open>TimeText t\<close> is
  \<open>strftime "%H:%M:%S"\<close> of the local time \<open>t\<close> (seconds).
\<close>

datatype dtext = Lit string | IpLine | RssiLine | DateText int | TimeText int

text \<open>
  The horizontal position: a constant, or \<open>c - getStrWidth(chBuffer) / 2\<close>, which
  depends on the font metrics of the driver.
\<close>

datatype xpos = At int | CentredOn int

datatype event =
    SerialBegin nat
  | SerialPrint string
  | SerialPrintln string
  | PinModeOutput nat
  | DigitalWrite nat bool
  | Delay nat
  | U8g2Begin
  | SetFont font
  | SetFontRefHeightExtendedText
  | SetDrawColor nat
  | SetFontPosTop
  | SetFontDirection nat
  | ClearBuffer
  | DrawStr xpos int dtext
  | SendBuffer
  | WiFiBegin string string
  | WiFiStatus bool
  | UdpBegin nat
  | ConfigTime int int string
  | GetLocalTime bool
  | SetenvTZ string
  | Tzset
  | GetTimeOfDay int

subsection \<open>The platform's time zone semantics\<close>

text \<open>
  Two library behaviours matter to the sketch and are not part of it; they are
  parameters of the model, and every theorem holds for all of them.
  \<^item> \<open>cfg_tz g d old\<close>: the value of the \<open>TZ\<close> environment after
    \<open>configTime(g, d, server)\<close>, given the value \<open>old\<close> before the call.
  \<^item> \<open>tz_offset e t\<close>: the number of seconds \<open>localtime\<close> adds to the raw time \<open>t\<close>
    when the \<open>TZ\<close> environment is \<open>e\<close>.
\<close>

record platform =
  cfg_tz :: "int \<Rightarrow> int \<Rightarrow> string option \<Rightarrow> string option"
  tz_offset :: "string option \<Rightarrow> int \<Rightarrow> int"

subsection \<open>The state\<close>

record state =
  bTimeReceived :: bool
  start :: int
  refresh :: int
  tz_env :: "string option"
  trace :: "event list"

text \<open>
  The initialisers of the sketch: \<open>bTimeReceived = false\<close>, \<open>start = 0\<close>,
  \<open>static int refresh = 0\<close>; the \<open>TZ\<close> variable is unset and nothing has happened.
\<close>

definition init_state :: state where
  "init_state = \<lparr>bTimeReceived = False, start = 0, refresh = 0, tz_env = None, trace = []\<rparr>"

definition emit :: "event list \<Rightarrow> state \<Rightarrow> state" where
  "emit es s = s\<lparr>trace := trace s @ es\<rparr>"

text \<open>\<open>int\<close> is 32 bits wide on the ESP32; \<open>refresh += 1\<close> is taken modulo \<open>2 ^ 32\<close>.\<close>

definition int32 :: "int \<Rightarrow> int" where
  "int32 x = (x + 2 ^ 31) mod 2 ^ 32 - 2 ^ 31"

text \<open>What \<open>localtime\<close> returns for the raw time \<open>t\<close> in state \<open>s\<close>.\<close>

definition localtime :: "platform \<Rightarrow> state \<Rightarrow> int \<Rightarrow> int" where
  "localtime pf s t = t + tz_offset pf (tz_env s) t"

subsection \<open>Time acquisition\<close>

text \<open>\<open>setTimezone\<close>, lines 83 to 87: trace message, \<open>setenv("TZ", ..., 1)\<close>, \<open>tzset()\<close>.\<close>

definition setTimezone :: "string \<Rightarrow> state \<Rightarrow> state" where
  "setTimezone timezone s =
     emit [SerialPrint (''  Setting Timezone to '' @ timezone @ [CHR 0x0A]), SetenvTZ timezone, Tzset]
       (s\<lparr>tz_env := Some timezone\<rparr>)"

text \<open>\<open>configTime(g, d, server)\<close>: a platform call; its effect on \<open>TZ\<close> is the platform's.\<close>

definition configTime :: "platform \<Rightarrow> int \<Rightarrow> int \<Rightarrow> string \<Rightarrow> state \<Rightarrow> state" where
  "configTime pf g d server s =
     emit [ConfigTime g d server] (s\<lparr>tz_env := cfg_tz pf g d (tz_env s)\<rparr>)"

text \<open>
  \<open>initTime\<close>, lines 100 to 118. The argument \<open>ok\<close> is what \<open>getLocalTime\<close> returns.
\<close>

definition initTime :: "platform \<Rightarrow> string \<Rightarrow> bool \<Rightarrow> state \<Rightarrow> state" where
  "initTime pf timezone ok s =
     (let s1 = emit [SerialPrintln ''initTime: initial setup of time''] s;
          s2 = configTime pf 0 0 ''time-c.nist.gov'' s1;
          s3 = emit [Delay 200, GetLocalTime ok] s2
      in if \<not> ok then
           (emit [SerialPrintln ''  Failed to obtain time''] s3)\<lparr>bTimeReceived := False\<rparr>
         else
           let s4 = emit [SerialPrintln ''  Got the time from NTP''] s3;
               s5 = setTimezone timezone s4;
               s6 = s5\<lparr>start := 1\<rparr>;
               s7 = s6\<lparr>bTimeReceived := True\<rparr>
           in emit [SerialPrintln ''  Initial time set.''] s7)"

text \<open>\<open>updateNtpTime\<close>, lines 122 to 139.\<close>

definition updateNtpTime :: "platform \<Rightarrow> string \<Rightarrow> bool \<Rightarrow> state \<Rightarrow> state" where
  "updateNtpTime pf timezone ok s =
     (let s1 = emit [SerialPrintln ''updateNtpTime: updating time''] s;
          s2 = configTime pf 0 0 ''time-c.nist.gov'' s1;
          s3 = emit [Delay 200, GetLocalTime ok] s2
      in if \<not> ok then
           (emit [SerialPrintln ''  Failed to obtain updated time''] s3)\<lparr>bTimeReceived := False\<rparr>
         else
           let s4 = emit [SerialPrintln ''  Got the updated time from NTP''] s3;
               s5 = setTimezone timezone s4;
               s6 = s5\<lparr>start := 1\<rparr>
           in s6\<lparr>bTimeReceived := True\<rparr>)"

subsection \<open>Blocking waits\<close>

text \<open>
  \<open>while (WiFi.status() != WL_CONNECTED) { Serial.print("."); delay(500); }\<close>
  The list holds the successive answers of \<open>WiFi.status() == WL_CONNECTED\<close>. The loop
  has no bound of its own: when the answers run out before one is true the result is
  \<open>None\<close>, the loop has not returned.
\<close>

fun wifi_wait :: "bool list \<Rightarrow> state \<Rightarrow> state option" where
  "wifi_wait [] s = None"
| "wifi_wait (c # cs) s =
     (if c then Some (emit [WiFiStatus True] s)
      else wifi_wait cs (emit [WiFiStatus False, SerialPrint ''.'', Delay 500] s))"

text \<open>\<open>while (!Serial) { Serial.print('.'); }\<close>, with the answers of \<open>(bool) Serial\<close>.\<close>

fun serial_wait :: "bool list \<Rightarrow> state \<Rightarrow> state option" where
  "serial_wait [] s = None"
| "serial_wait (r # rs) s =
     (if r then Some s else serial_wait rs (emit [SerialPrint ''.''] s))"

subsection \<open>Setup\<close>

record setup_input =
  serial_ready :: "bool list"
  setup_wifi :: "bool list"
  init_ok :: bool

text \<open>Lines 150 to 188: serial port, LED blink, display set-up, the title frame.\<close>

definition setup_head :: "event list" where
  "setup_head =
     [PinModeOutput 25, DigitalWrite 25 True, Delay 100, DigitalWrite 25 False, Delay 100,
      DigitalWrite 25 True, Delay 100, DigitalWrite 25 False,
      U8g2Begin, SetFont Font_6x10_tr, SetFontRefHeightExtendedText, SetDrawColor 1,
      SetFontPosTop, SetFontDirection 0,
      ClearBuffer,
      DrawStr (CentredOn 64) 0 (Lit ''Connecting to:''),
      DrawStr (CentredOn 64) (31 - FONT_ONE_HEIGHT div 2) (Lit chSSID),
      SendBuffer,
      SerialPrint ''NTP clock: connecting to wifi'',
      WiFiBegin chSSID chPassword]"

text \<open>Lines 199 to 238: the connection report, the "awaiting" frame, the UDP port.\<close>

definition setup_tail :: "event list" where
  "setup_tail =
     [SerialPrintln '''',
      SerialPrintln (''NTP clock: WiFi connected to '' @ chSSID @ ''.''),
      DigitalWrite 25 True, Delay 100, DigitalWrite 25 False,
      ClearBuffer,
      DrawStr (CentredOn 64) 0 (Lit ''WiFi Stats:''),
      DrawStr (At 0) (FONT_ONE_HEIGHT * 2) IpLine,
      DrawStr (At 0) (FONT_ONE_HEIGHT * 3) (Lit (''SSID: '' @ chSSID)),
      DrawStr (At 0) (FONT_ONE_HEIGHT * 4) RssiLine,
      DrawStr (At 0) (FONT_ONE_HEIGHT * 6) (Lit ''Awaiting NTP time...''),
      SendBuffer, Delay 100, DigitalWrite 25 True,
      UdpBegin UDP_PORT]"

text \<open>The state in which \<open>setup\<close> calls \<open>initTime(tz)\<close> (line 243).\<close>

definition setup_before_init :: "setup_input \<Rightarrow> state option" where
  "setup_before_init si =
     (case serial_wait (serial_ready si) (emit [SerialBegin 115200] init_state) of
        None \<Rightarrow> None
      | Some s1 \<Rightarrow>
          (case wifi_wait (setup_wifi si) (emit setup_head s1) of
             None \<Rightarrow> None
           | Some s2 \<Rightarrow> Some (emit setup_tail s2)))"

text \<open>\<open>setup()\<close>, lines 148 to 244 (\<open>setup\<close> is a reserved word here, hence the name).\<close>

definition setup_proc :: "platform \<Rightarrow> setup_input \<Rightarrow> state option" where
  "setup_proc pf si =
     (case setup_before_init si of
        None \<Rightarrow> None
      | Some s \<Rightarrow> Some (initTime pf tz (init_ok si) s))"

subsection \<open>The main loop\<close>

text \<open>
  What the platform answers during one pass of \<open>loop\<close>: the result of \<open>getLocalTime\<close>
  (read only if \<open>updateNtpTime\<close> is called), the answers of \<open>WiFi.status()\<close> (read only
  in the re-association loop) and the seconds read by \<open>gettimeofday\<close> (read only when
  the display is updated).
\<close>

record loop_input =
  ntp_ok :: bool
  wifi_polls :: "bool list"
  now :: int

text \<open>Lines 260 to 263: \<open>if (bTimeReceived == false) updateNtpTime(tz);\<close>\<close>

definition acquire_step :: "platform \<Rightarrow> loop_input \<Rightarrow> state \<Rightarrow> state" where
  "acquire_step pf inp s =
     (if bTimeReceived s = False then updateNtpTime pf tz (ntp_ok inp) s else s)"

text \<open>
  The condition of line 265, \<open>refresh > 16200 || start == 0\<close>, with the literal as the
  parameter \<open>T\<close>.
\<close>

definition resync_due :: "int \<Rightarrow> state \<Rightarrow> bool" where
  "resync_due T s = (refresh s > T \<or> start s = 0)"

text \<open>Lines 266 to 274, the body of the conditional.\<close>

definition reassociate :: "loop_input \<Rightarrow> state \<Rightarrow> state option" where
  "reassociate inp s =
     (case wifi_wait (wifi_polls inp) (emit [WiFiBegin chSSID chPassword] (s\<lparr>start := 1\<rparr>)) of
        None \<Rightarrow> None
      | Some s' \<Rightarrow> Some (s'\<lparr>bTimeReceived := False, refresh := 0\<rparr>))"

definition resync_step :: "int \<Rightarrow> loop_input \<Rightarrow> state \<Rightarrow> state option" where
  "resync_step T inp s = (if resync_due T s then reassociate inp s else Some s)"

text \<open>Lines 278 to 307: \<open>if (bTimeReceived) { refresh += 1; ... }\<close>\<close>

definition render_events :: "int \<Rightarrow> int \<Rightarrow> event list" where
  "render_events raw lt =
     [DigitalWrite 25 False, GetTimeOfDay raw,
      ClearBuffer,
      SetFont Font_6x10_tr, DrawStr (CentredOn 60) 7 (DateText lt),
      SetFont Font_fur20_tn, DrawStr (At 10) (52 - FONT_TWO_HEIGHT) (TimeText lt),
      SendBuffer]"

definition render_step :: "platform \<Rightarrow> loop_input \<Rightarrow> state \<Rightarrow> state" where
  "render_step pf inp s =
     (if bTimeReceived s then
        emit (render_events (now inp) (localtime pf s (now inp)))
          (s\<lparr>refresh := int32 (refresh s + 1)\<rparr>)
      else s)"

text \<open>One pass of \<open>loop\<close>, lines 251 to 311, ending with \<open>delay(200)\<close>.\<close>

definition loop_thr :: "platform \<Rightarrow> int \<Rightarrow> loop_input \<Rightarrow> state \<Rightarrow> state option" where
  "loop_thr pf T inp s =
     (case resync_step T inp (acquire_step pf inp s) of
        None \<Rightarrow> None
      | Some m \<Rightarrow> Some (emit [Delay 200] (render_step pf inp m)))"

definition loop :: "platform \<Rightarrow> loop_input \<Rightarrow> state \<Rightarrow> state option" where
  "loop pf = loop_thr pf RESYNC_THRESHOLD"

text \<open>Consecutive passes, one input per pass.\<close>

fun run_thr :: "platform \<Rightarrow> int \<Rightarrow> loop_input list \<Rightarrow> state \<Rightarrow> state option" where
  "run_thr pf T [] s = Some s"
| "run_thr pf T (i # is) s =
     (case loop_thr pf T i s of None \<Rightarrow> None | Some s' \<Rightarrow> run_thr pf T is s')"

text \<open>The sketch: \<open>setup\<close>, then the passes of \<open>loop\<close>.\<close>

definition sketch :: "platform \<Rightarrow> setup_input \<Rightarrow> loop_input list \<Rightarrow> state option" where
  "sketch pf si ins =
     (case setup_proc pf si of None \<Rightarrow> None | Some s \<Rightarrow> run_thr pf RESYNC_THRESHOLD ins s)"

subsection \<open>Observations on runs\<close>

text \<open>The events of a \<open>wifi_wait\<close> that returns: one round per refusal, then the success.\<close>

definition wifi_wait_events :: "bool list \<Rightarrow> event list" where
  "wifi_wait_events cs =
     concat (map (\<lambda>c. [WiFiStatus False, SerialPrint ''.'', Delay 500]) (takeWhile Not cs))
     @ [WiFiStatus True]"

text \<open>The events added to the trace between two states of one run.\<close>

definition new_events :: "state \<Rightarrow> state \<Rightarrow> event list" where
  "new_events s s' = drop (length (trace s)) (trace s')"

text \<open>The calls that touch the frame: \<open>clearBuffer\<close>, \<open>drawStr\<close>, \<open>sendBuffer\<close>.\<close>

fun frame_event :: "event \<Rightarrow> bool" where
  "frame_event ClearBuffer = True"
| "frame_event (DrawStr x y t) = True"
| "frame_event SendBuffer = True"
| "frame_event _ = False"

text \<open>The calls of an acquisition: \<open>configTime\<close>, \<open>getLocalTime\<close>, \<open>setenv\<close>, \<open>tzset\<close>.\<close>

fun acquire_event :: "event \<Rightarrow> bool" where
  "acquire_event (ConfigTime g d srv) = True"
| "acquire_event (GetLocalTime ok) = True"
| "acquire_event (SetenvTZ z) = True"
| "acquire_event Tzset = True"
| "acquire_event _ = False"

text \<open>An acquisition has succeeded in the run so far: \<open>getLocalTime\<close> has returned true.\<close>

definition acquired :: "state \<Rightarrow> bool" where
  "acquired s = (GetLocalTime True \<in> set (trace s))"

text \<open>
  The state in which a pass evaluates the condition of line 265: the sketch has run
  \<open>setup\<close> and the passes \<open>ins\<close>, and the pass with input \<open>inp\<close> has done its
  acquisition step.
\<close>

definition decision_state ::
  "platform \<Rightarrow> setup_input \<Rightarrow> loop_input list \<Rightarrow> loop_input \<Rightarrow> state option" where
  "decision_state pf si ins inp = map_option (acquire_step pf inp) (sketch pf si ins)"

text \<open>The value of the condition of line 265 in each of consecutive passes.\<close>

fun due_log :: "platform \<Rightarrow> int \<Rightarrow> loop_input list \<Rightarrow> state \<Rightarrow> bool list" where
  "due_log pf T [] s = []"
| "due_log pf T (i # is) s =
     resync_due T (acquire_step pf i s) #
     (case loop_thr pf T i s of None \<Rightarrow> [] | Some s' \<Rightarrow> due_log pf T is s')"

text \<open>The invariant of the three variables at the start of every pass.\<close>

definition clock_inv :: "int \<Rightarrow> state \<Rightarrow> bool" where
  "clock_inv T s \<longleftrightarrow>
     0 \<le> refresh s \<and> refresh s \<le> T + 1 \<and> (start s = 0 \<or> start s = 1) \<and>
     (bTimeReceived s \<longrightarrow> start s = 1) \<and> (\<not> bTimeReceived s \<longrightarrow> refresh s = 0)"

text \<open>
  What the panel shows. The driver keeps a frame buffer: \<open>clearBuffer\<close> empties it,
  \<open>drawStr\<close> adds a text to it, \<open>sendBuffer\<close> copies it to the panel; no other call
  of the sketch changes either. The pair is (buffer, panel), as the texts drawn.
\<close>

fun display_step :: "event \<Rightarrow> dtext list \<times> dtext list \<Rightarrow> dtext list \<times> dtext list" where
  "display_step ClearBuffer (buf, pan) = ([], pan)"
| "display_step (DrawStr x y t) (buf, pan) = (buf @ [t], pan)"
| "display_step SendBuffer (buf, pan) = (buf, buf)"
| "display_step e d = d"

definition display_after ::
  "event list \<Rightarrow> dtext list \<times> dtext list \<Rightarrow> dtext list \<times> dtext list" where
  "display_after es d = fold display_step es d"

text \<open>The texts on the panel after the run so far, the panel being blank at power-up.\<close>

definition shown :: "state \<Rightarrow> dtext list" where
  "shown s = snd (display_after (trace s) ([], []))"

subsection \<open>Inputs for the examples\<close>

text \<open>
  A platform on which \<open>configTime\<close> installs UTC and the rule \<open>tz\<close> reads five hours
  behind UTC (Eastern Standard Time); any other environment reads as UTC.
\<close>

definition est_platform :: platform where
  "est_platform =
     \<lparr>cfg_tz = (\<lambda>g d old. Some ''UTC0''),
      tz_offset = (\<lambda>e t. if e = Some tz then - 18000 else 0)\<rparr>"

text \<open>The serial port is ready at once, the station associates at the second poll.\<close>

definition boot :: "bool \<Rightarrow> setup_input" where
  "boot ok = \<lparr>serial_ready = [True], setup_wifi = [False, True], init_ok = ok\<rparr>"

text \<open>A pass at 2024-01-01T00:00:00Z (1704067200 seconds).\<close>

definition pass :: "bool \<Rightarrow> loop_input" where
  "pass ok = \<lparr>ntp_ok = ok, wifi_polls = [False, True], now = 1704067200\<rparr>"

text \<open>The state right after a first successful acquisition.\<close>

definition synced :: state where
  "synced = updateNtpTime est_platform tz True init_state"

section \<open>Basic facts\<close>

lemma emit_fields [simp]:
  "bTimeReceived (emit es s) = bTimeReceived s"
  "start (emit es s) = start s"
  "refresh (emit es s) = refresh s"
  "tz_env (emit es s) = tz_env s"
  "trace (emit es s) = trace s @ es"
  by (simp_all add: emit_def)

lemma int32_id: "- (2 ^ 31) \<le> x \<Longrightarrow> x < 2 ^ 31 \<Longrightarrow> int32 x = x"
  by (simp add: int32_def)

lemma updateNtpTime_flags:
  "bTimeReceived (updateNtpTime pf z ok s) = ok"
  "start (updateNtpTime pf z ok s) = (if ok then 1 else start s)"
  "refresh (updateNtpTime pf z ok s) = refresh s"
  by (simp_all add: updateNtpTime_def Let_def setTimezone_def configTime_def)

lemma initTime_flags:
  "bTimeReceived (initTime pf z ok s) = ok"
  "start (initTime pf z ok s) = (if ok then 1 else start s)"
  "refresh (initTime pf z ok s) = refresh s"
  by (simp_all add: initTime_def Let_def setTimezone_def configTime_def)

subsection \<open>The blocking waits return exactly when the platform eventually says yes\<close>

lemma wifi_wait_None: "wifi_wait cs s = None \<longleftrightarrow> True \<notin> set cs"
  by (induction cs arbitrary: s) auto

lemma wifi_wait_Some:
  "wifi_wait cs s = Some s' \<Longrightarrow> s' = emit (wifi_wait_events cs) s"
proof (induction cs arbitrary: s)
  case Nil then show ?case by simp
next
  case (Cons c cs)
  show ?case
  proof (cases c)
    case True
    with Cons.prems show ?thesis by (simp add: wifi_wait_events_def)
  next
    case False
    with Cons.prems
    have "wifi_wait cs (emit [WiFiStatus False, SerialPrint ''.'', Delay 500] s) = Some s'"
      by simp
    from Cons.IH [OF this] False show ?thesis
      by (simp add: wifi_wait_events_def emit_def)
  qed
qed

lemma serial_wait_Some:
  "serial_wait rs s = Some s' \<Longrightarrow>
     s' = emit (replicate (length (takeWhile Not rs)) (SerialPrint ''.'')) s"
proof (induction rs arbitrary: s)
  case Nil then show ?case by simp
next
  case (Cons r rs)
  show ?case
  proof (cases r)
    case True
    with Cons.prems show ?thesis by (simp add: emit_def)
  next
    case False
    with Cons.prems have "serial_wait rs (emit [SerialPrint ''.''] s) = Some s'" by simp
    from Cons.IH [OF this] False show ?thesis
      by (simp add: emit_def)
  qed
qed

subsection \<open>One pass of the loop\<close>

lemma acquire_step_flags:
  "bTimeReceived (acquire_step pf inp s) = (bTimeReceived s \<or> ntp_ok inp)"
  "start (acquire_step pf inp s) = (if \<not> bTimeReceived s \<and> ntp_ok inp then 1 else start s)"
  "refresh (acquire_step pf inp s) = refresh s"
  by (simp_all add: acquire_step_def updateNtpTime_flags)

lemma reassociate_None: "reassociate inp m = None \<longleftrightarrow> True \<notin> set (wifi_polls inp)"
  using wifi_wait_None [of "wifi_polls inp" "emit [WiFiBegin chSSID chPassword] (m\<lparr>start := 1\<rparr>)"]
  by (auto simp: reassociate_def split: option.splits)

lemma reassociate_Some:
  assumes "reassociate inp m = Some m'"
  shows "bTimeReceived m' = False" and "start m' = 1" and "refresh m' = 0"
    and "tz_env m' = tz_env m"
    and "trace m' = trace m @ WiFiBegin chSSID chPassword # wifi_wait_events (wifi_polls inp)"
  using assms by (auto simp: reassociate_def split: option.splits dest!: wifi_wait_Some)

lemma render_step_flags:
  "bTimeReceived (render_step pf inp m) = bTimeReceived m"
  "start (render_step pf inp m) = start m"
  "refresh (render_step pf inp m) = (if bTimeReceived m then int32 (refresh m + 1) else refresh m)"
  "tz_env (render_step pf inp m) = tz_env m"
  by (simp_all add: render_step_def)

lemma loop_thr_due:
  assumes "resync_due T (acquire_step pf inp s)" and "loop_thr pf T inp s = Some s'"
  shows "bTimeReceived s' = False" and "start s' = 1" and "refresh s' = 0"
    and "trace s' = trace (acquire_step pf inp s) @ WiFiBegin chSSID chPassword #
           wifi_wait_events (wifi_polls inp) @ [Delay 200]"
  using assms
  by (auto simp: loop_thr_def resync_step_def render_step_def split: option.splits
      dest: reassociate_Some)

lemma loop_thr_not_due:
  assumes "\<not> resync_due T (acquire_step pf inp s)"
  shows "loop_thr pf T inp s = Some (emit [Delay 200] (render_step pf inp (acquire_step pf inp s)))"
  using assms by (simp add: loop_thr_def resync_step_def)

lemma loop_thr_None:
  "loop_thr pf T inp s = None \<longleftrightarrow>
     resync_due T (acquire_step pf inp s) \<and> True \<notin> set (wifi_polls inp)"
  using reassociate_None [of inp "acquire_step pf inp s"]
  by (auto simp: loop_thr_def resync_step_def split: option.splits)

subsection \<open>The invariant\<close>

lemma clock_inv_loop:
  assumes T: "0 \<le> T" "T + 1 < 2 ^ 31" and inv: "clock_inv T s"
    and step: "loop_thr pf T inp s = Some s'"
  shows "clock_inv T s' \<and> start s' = 1"
proof (cases "resync_due T (acquire_step pf inp s)")
  case True
  from loop_thr_due [OF True step] T show ?thesis by (simp add: clock_inv_def)
next
  case False
  then have nd: "refresh s \<le> T" "start (acquire_step pf inp s) \<noteq> 0"
    by (simp_all add: resync_due_def acquire_step_flags)
  from inv T nd have "int32 (refresh s + 1) = refresh s + 1"
    by (intro int32_id) (simp_all add: clock_inv_def)
  with inv nd step loop_thr_not_due [OF False] show ?thesis
    by (auto simp: clock_inv_def render_step_flags acquire_step_flags split: if_splits)
qed

lemma setup_before_init_flags:
  assumes "setup_before_init si = Some s"
  shows "bTimeReceived s = False" and "start s = 0" and "refresh s = 0"
  using assms
  by (auto simp: setup_before_init_def init_state_def split: option.splits
      dest!: wifi_wait_Some serial_wait_Some)

lemma clock_inv_setup:
  assumes "0 \<le> T" and "setup_proc pf si = Some s"
  shows "clock_inv T s"
  using assms
  by (auto simp: setup_proc_def clock_inv_def initTime_flags split: option.splits
      dest: setup_before_init_flags)

lemma clock_inv_run:
  assumes "0 \<le> T" "T + 1 < 2 ^ 31"
  shows "clock_inv T s \<Longrightarrow> run_thr pf T ins s = Some s' \<Longrightarrow> clock_inv T s'"
proof (induction ins arbitrary: s)
  case Nil then show ?case by simp
next
  case (Cons i ins)
  from Cons.prems(2) obtain m where m: "loop_thr pf T i s = Some m" "run_thr pf T ins m = Some s'"
    by (auto split: option.splits)
  from clock_inv_loop [OF assms Cons.prems(1) m(1)] have "clock_inv T m" by simp
  from Cons.IH [OF this m(2)] show ?case .
qed

lemma clock_inv_sketch:
  assumes "sketch pf si ins = Some s"
  shows "clock_inv RESYNC_THRESHOLD s"
proof -
  from assms obtain s0 where s0: "setup_proc pf si = Some s0"
    "run_thr pf RESYNC_THRESHOLD ins s0 = Some s"
    by (auto simp: sketch_def split: option.splits)
  have T: "0 \<le> RESYNC_THRESHOLD" "RESYNC_THRESHOLD + 1 < 2 ^ 31"
    by (simp_all add: RESYNC_THRESHOLD_def)
  from clock_inv_run [OF T clock_inv_setup [OF T(1) s0(1)] s0(2)] show ?thesis .
qed

subsection \<open>Evaluating a run on explicit inputs\<close>

lemmas run_defs = sketch_def setup_proc_def setup_before_init_def boot_def pass_def loop_def
     loop_thr_def resync_step_def resync_due_def acquire_step_def reassociate_def render_step_def
     init_state_def RESYNC_THRESHOLD_def int32_def

subsection \<open>Counting passes while the clock is synchronised\<close>

lemma run_thr_append:
  "run_thr pf T (xs @ ys) s =
     (case run_thr pf T xs s of None \<Rightarrow> None | Some m \<Rightarrow> run_thr pf T ys m)"
  by (induction xs arbitrary: s) (simp_all split: option.splits)

lemma due_log_append:
  "run_thr pf T xs s = Some m \<Longrightarrow> due_log pf T (xs @ ys) s = due_log pf T xs s @ due_log pf T ys m"
  by (induction xs arbitrary: s) (auto split: option.splits)

lemma run_counts:
  assumes T: "0 \<le> T" "T + 1 < 2 ^ 31"
  shows "bTimeReceived s \<Longrightarrow> start s = 1 \<Longrightarrow> 0 \<le> refresh s \<Longrightarrow>
         refresh s + int (length ins) \<le> T + 1 \<Longrightarrow>
         \<exists>s'. run_thr pf T ins s = Some s' \<and> bTimeReceived s' \<and> start s' = 1 \<and>
              refresh s' = refresh s + int (length ins) \<and>
              due_log pf T ins s = replicate (length ins) False"
proof (induction ins arbitrary: s)
  case Nil then show ?case by simp
next
  case (Cons i ins)
  let ?a = "acquire_step pf i s"
  from Cons.prems have a: "?a = s" by (simp add: acquire_step_def)
  from Cons.prems have nd: "\<not> resync_due T ?a" by (simp add: a resync_due_def)
  let ?m = "emit [Delay 200] (render_step pf i s)"
  from loop_thr_not_due [OF nd] have step: "loop_thr pf T i s = Some ?m" by (simp add: a)
  from Cons.prems T have "int32 (refresh s + 1) = refresh s + 1"
    by (intro int32_id) simp_all
  with Cons.prems have m: "bTimeReceived ?m" "start ?m = 1" "0 \<le> refresh ?m"
    "refresh ?m = refresh s + 1"
    by (simp_all add: render_step_flags)
  from Cons.prems m have "refresh ?m + int (length ins) \<le> T + 1" by simp
  from Cons.IH [OF m(1) m(2) m(3) this] obtain s' where
    "run_thr pf T ins ?m = Some s'" "bTimeReceived s'" "start s' = 1"
    "refresh s' = refresh ?m + int (length ins)"
    "due_log pf T ins ?m = replicate (length ins) False" by blast
  with step m nd show ?case by (simp add: a)
qed

subsection \<open>The state after setup\<close>

lemma setup_proc_flags:
  assumes "setup_proc pf si = Some s"
  shows "bTimeReceived s = init_ok si" and "start s = (if init_ok si then 1 else 0)"
    and "refresh s = 0"
  using assms
  by (auto simp: setup_proc_def initTime_flags split: option.splits
      dest: setup_before_init_flags)

lemma setup_proc_boot: "\<exists>s. setup_proc pf (boot ok) = Some s"
  by (simp add: setup_proc_def setup_before_init_def boot_def)

lemma resync_step_refresh:
  assumes "resync_step T inp a = Some m"
  shows "refresh m \<le> T \<or> refresh m = 0" and "refresh m = refresh a \<or> refresh m = 0"
    and "bTimeReceived m \<longrightarrow> m = a \<and> \<not> resync_due T a"
  using assms
  by (auto simp: resync_step_def resync_due_def split: if_splits dest: reassociate_Some)

lemma sketch_boot: "\<exists>s. sketch pf (boot ok) [] = Some s"
  using setup_proc_boot [of pf ok] by (auto simp: sketch_def)

lemma sketch_Nil_flags:
  assumes "sketch pf si [] = Some s"
  shows "bTimeReceived s = init_ok si" and "start s = (if init_ok si then 1 else 0)"
    and "refresh s = 0"
  using assms setup_proc_flags [of pf si s] by (simp_all add: sketch_def split: option.splits)

lemma synced_flags: "bTimeReceived synced" "start synced = 1" "refresh synced = 0"
  by (simp_all add: synced_def updateNtpTime_flags init_state_def)

subsection \<open>Reaching the threshold\<close>

lemma run_then_resync:
  assumes T: "0 \<le> T" "T + 1 < 2 ^ 31"
    and s: "bTimeReceived s" "start s = 1" "refresh s = 0"
    and n: "int (length ins) = T + 1"
    and w: "True \<in> set (wifi_polls inp)"
  shows "\<exists>m s'. run_thr pf T ins s = Some m \<and> bTimeReceived m \<and> refresh m = T + 1 \<and>
           due_log pf T ins s = replicate (length ins) False \<and>
           resync_due T (acquire_step pf inp m) \<and>
           loop_thr pf T inp m = Some s' \<and> bTimeReceived s' = False \<and> refresh s' = 0"
proof -
  from s n have "refresh s + int (length ins) \<le> T + 1" by simp
  from run_counts [OF T s(1) s(2) _ this, of pf] s obtain m where
    m: "run_thr pf T ins s = Some m" "bTimeReceived m" "start m = 1"
       "refresh m = refresh s + int (length ins)"
       "due_log pf T ins s = replicate (length ins) False" by auto
  from m s n have rm: "refresh m = T + 1" by simp
  then have due: "resync_due T (acquire_step pf inp m)"
    by (simp add: resync_due_def acquire_step_flags)
  from w loop_thr_None [of pf T inp m] obtain s' where s': "loop_thr pf T inp m = Some s'"
    by auto
  from loop_thr_due [OF due s'] m rm due s' show ?thesis by simp
qed

subsection \<open>The variable start after the first pass\<close>

lemma run_thr_start:
  assumes T: "0 \<le> T" "T + 1 < 2 ^ 31"
  shows "clock_inv T s \<Longrightarrow> run_thr pf T ins s = Some s' \<Longrightarrow> ins \<noteq> [] \<Longrightarrow> start s' = 1"
proof (induction ins arbitrary: s)
  case Nil then show ?case by simp
next
  case (Cons i ins)
  from Cons.prems(2) obtain m where m: "loop_thr pf T i s = Some m" "run_thr pf T ins m = Some s'"
    by (auto split: option.splits)
  from clock_inv_loop [OF T Cons.prems(1) m(1)] have cm: "clock_inv T m" "start m = 1"
    by simp_all
  show ?case
  proof (cases "ins = []")
    case True with m cm show ?thesis by simp
  next
    case False from Cons.IH [OF cm(1) m(2) False] show ?thesis .
  qed
qed

lemma sketch_start:
  assumes "sketch pf si ins = Some s" and "ins \<noteq> []"
  shows "start s = 1"
proof -
  from assms obtain s0 where s0: "setup_proc pf si = Some s0"
    "run_thr pf RESYNC_THRESHOLD ins s0 = Some s"
    by (auto simp: sketch_def split: option.splits)
  have T: "0 \<le> RESYNC_THRESHOLD" "RESYNC_THRESHOLD + 1 < 2 ^ 31"
    by (simp_all add: RESYNC_THRESHOLD_def)
  from run_thr_start [OF T clock_inv_setup [OF T(1) s0(1)] s0(2) assms(2)] show ?thesis .
qed

subsection \<open>Traces\<close>

lemma setup_before_init_trace:
  assumes "setup_before_init si = Some s"
  shows "trace s =
           SerialBegin 115200 #
           replicate (length (takeWhile Not (serial_ready si))) (SerialPrint ''.'') @
           setup_head @ wifi_wait_events (setup_wifi si) @ setup_tail"
proof -
  from assms obtain s1 s2 where
    s1: "serial_wait (serial_ready si) (emit [SerialBegin 115200] init_state) = Some s1" and
    s2: "wifi_wait (setup_wifi si) (emit setup_head s1) = Some s2" and
    s: "s = emit setup_tail s2"
    by (auto simp: setup_before_init_def split: option.splits)
  from serial_wait_Some [OF s1] wifi_wait_Some [OF s2] s show ?thesis
    by (simp add: init_state_def)
qed

lemma wifi_wait_events_set:
  "set (wifi_wait_events cs) \<subseteq> {WiFiStatus False, SerialPrint ''.'', Delay 500, WiFiStatus True}"
  by (auto simp: wifi_wait_events_def)

lemma setup_before_init_not_acquired:
  assumes "setup_before_init si = Some s"
  shows "\<not> acquired s"
proof -
  have "GetLocalTime True \<notin> set (wifi_wait_events (setup_wifi si))"
    using wifi_wait_events_set [of "setup_wifi si"] by auto
  moreover have "GetLocalTime True \<notin> set setup_head" by (simp add: setup_head_def)
  moreover have "GetLocalTime True \<notin> set setup_tail" by (simp add: setup_tail_def)
  ultimately show ?thesis
    by (simp add: acquired_def setup_before_init_trace [OF assms])
qed

lemma initTime_acquired: "acquired (initTime pf z ok s) \<longleftrightarrow> acquired s \<or> ok"
  by (auto simp: acquired_def initTime_def Let_def setTimezone_def configTime_def)

lemma setup_proc_acquired:
  assumes "setup_proc pf si = Some s"
  shows "acquired s = init_ok si"
  using assms
  by (auto simp: setup_proc_def initTime_acquired split: option.splits
      dest: setup_before_init_not_acquired)

lemma new_events_eq: "trace s' = trace s @ es \<Longrightarrow> new_events s s' = es"
  by (simp add: new_events_def)

lemma updateNtpTime_trace:
  "trace (updateNtpTime pf z ok s) =
     trace s @
     [SerialPrintln ''updateNtpTime: updating time'', ConfigTime 0 0 ''time-c.nist.gov'',
      Delay 200, GetLocalTime ok] @
     (if ok then [SerialPrintln ''  Got the updated time from NTP'',
                  SerialPrint (''  Setting Timezone to '' @ z @ [CHR 0x0A]), SetenvTZ z, Tzset]
      else [SerialPrintln ''  Failed to obtain updated time''])"
  by (simp add: updateNtpTime_def Let_def setTimezone_def configTime_def)

lemma initTime_trace:
  "trace (initTime pf z ok s) =
     trace s @
     [SerialPrintln ''initTime: initial setup of time'', ConfigTime 0 0 ''time-c.nist.gov'',
      Delay 200, GetLocalTime ok] @
     (if ok then [SerialPrintln ''  Got the time from NTP'',
                  SerialPrint (''  Setting Timezone to '' @ z @ [CHR 0x0A]), SetenvTZ z, Tzset,
                  SerialPrintln ''  Initial time set.'']
      else [SerialPrintln ''  Failed to obtain time''])"
  by (simp add: initTime_def Let_def setTimezone_def configTime_def)

lemma acquire_tz_env:
  "tz_env (updateNtpTime pf z ok s) = (if ok then Some z else cfg_tz pf 0 0 (tz_env s))"
  "tz_env (initTime pf z ok s) = (if ok then Some z else cfg_tz pf 0 0 (tz_env s))"
  by (simp_all add: updateNtpTime_def initTime_def Let_def setTimezone_def configTime_def)

lemma wifi_wait_events_filter:
  "filter frame_event (wifi_wait_events cs) = []"
  "filter acquire_event (wifi_wait_events cs) = []"
  using wifi_wait_events_set [of cs] by (auto simp: filter_empty_conv)

lemma acquire_step_trace:
  "\<exists>es. trace (acquire_step pf inp s) = trace s @ es \<and> filter frame_event es = []"
  by (simp add: acquire_step_def updateNtpTime_trace)

lemma new_events_trans:
  assumes "trace m = trace s @ es" and "trace s' = trace m @ es'"
  shows "new_events s s' = es @ es'"
  using assms by (simp add: new_events_def)

lemma resync_step_trace:
  assumes "resync_step T inp a = Some m"
  shows "\<exists>es. trace m = trace a @ es \<and> filter frame_event es = []"
proof (cases "resync_due T a")
  case True
  with assms have "reassociate inp a = Some m" by (simp add: resync_step_def)
  from reassociate_Some(5) [OF this] show ?thesis
    by (simp add: wifi_wait_events_filter)
next
  case False
  with assms show ?thesis by (simp add: resync_step_def)
qed

lemma render_step_trace:
  "trace (render_step pf inp m) =
     trace m @ (if bTimeReceived m
                then render_events (now inp) (localtime pf m (now inp)) else [])"
  by (simp add: render_step_def)

subsection \<open>Runs in which no acquisition has succeeded\<close>

lemma acquired_mono: "trace s' = trace s @ es \<Longrightarrow> acquired s \<Longrightarrow> acquired s'"
  by (simp add: acquired_def)

lemma updateNtpTime_acquired: "acquired (updateNtpTime pf z ok s) \<longleftrightarrow> acquired s \<or> ok"
  by (auto simp: acquired_def updateNtpTime_trace)

lemma loop_thr_unacquired:
  assumes step: "loop_thr pf T inp s = Some s'" and na: "\<not> acquired s'"
    and nr: "\<not> bTimeReceived s"
  shows "\<not> bTimeReceived s' \<and> filter frame_event (trace s') = filter frame_event (trace s)"
proof -
  let ?a = "acquire_step pf inp s"
  from step obtain m where m: "resync_step T inp ?a = Some m"
    and s': "s' = emit [Delay 200] (render_step pf inp m)"
    by (auto simp: loop_thr_def split: option.splits)
  obtain es where es: "trace ?a = trace s @ es" "filter frame_event es = []"
    using acquire_step_trace by blast
  obtain es' where es': "trace m = trace ?a @ es'" "filter frame_event es' = []"
    using resync_step_trace [OF m] by blast
  have t: "trace s' = trace ?a @ (es' @
      (if bTimeReceived m then render_events (now inp) (localtime pf m (now inp)) else []) @
      [Delay 200])"
    by (simp add: s' render_step_trace es')
  from acquired_mono [OF t] na have "\<not> acquired ?a" by blast
  with nr have "\<not> ntp_ok inp" by (simp add: acquire_step_def updateNtpTime_acquired)
  with nr have "\<not> bTimeReceived ?a" by (simp add: acquire_step_flags)
  with m have nm: "\<not> bTimeReceived m"
    by (auto simp: resync_step_def split: if_splits dest: reassociate_Some(1))
  with t es es' show ?thesis by (simp add: s' render_step_flags)
qed

lemma loop_thr_extends:
  assumes "loop_thr pf T inp s = Some s'"
  shows "\<exists>es. trace s' = trace s @ es"
proof -
  from assms obtain m where m: "resync_step T inp (acquire_step pf inp s) = Some m"
    and s': "s' = emit [Delay 200] (render_step pf inp m)"
    by (auto simp: loop_thr_def split: option.splits)
  obtain es where es: "trace (acquire_step pf inp s) = trace s @ es"
    using acquire_step_trace by blast
  obtain es' where es': "trace m = trace (acquire_step pf inp s) @ es'"
    using resync_step_trace [OF m] by auto
  show ?thesis by (simp add: s' render_step_trace es es')
qed

lemma run_thr_extends:
  "run_thr pf T ins s = Some s' \<Longrightarrow> \<exists>es. trace s' = trace s @ es"
proof (induction ins arbitrary: s)
  case Nil then show ?case by simp
next
  case (Cons i ins)
  from Cons.prems obtain m where m: "loop_thr pf T i s = Some m" "run_thr pf T ins m = Some s'"
    by (auto split: option.splits)
  from loop_thr_extends [OF m(1)] Cons.IH [OF m(2)] show ?case by auto
qed

lemma run_thr_unacquired:
  "run_thr pf T ins s = Some s' \<Longrightarrow> \<not> acquired s' \<Longrightarrow> \<not> bTimeReceived s \<Longrightarrow>
     \<not> bTimeReceived s' \<and> filter frame_event (trace s') = filter frame_event (trace s)"
proof (induction ins arbitrary: s s' rule: rev_induct)
  case Nil then show ?case by simp
next
  case (snoc i ins)
  from snoc.prems(1) obtain m where m: "run_thr pf T ins s = Some m"
    "loop_thr pf T i m = Some s'"
    by (auto simp: run_thr_append split: option.splits)
  from loop_thr_extends [OF m(2)] snoc.prems(2) have nm: "\<not> acquired m"
    using acquired_mono by blast
  from snoc.IH [OF m(1) nm snoc.prems(3)]
  have "\<not> bTimeReceived m" "filter frame_event (trace m) = filter frame_event (trace s)"
    by simp_all
  with loop_thr_unacquired [OF m(2) snoc.prems(2)] show ?case by simp
qed

lemma setup_proc_frames:
  assumes "setup_proc pf si = Some s"
  shows "filter frame_event (trace s) =
     [ClearBuffer,
      DrawStr (CentredOn 64) 0 (Lit ''Connecting to:''),
      DrawStr (CentredOn 64) 27 (Lit chSSID),
      SendBuffer,
      ClearBuffer,
      DrawStr (CentredOn 64) 0 (Lit ''WiFi Stats:''),
      DrawStr (At 0) 16 IpLine,
      DrawStr (At 0) 24 (Lit (''SSID: '' @ chSSID)),
      DrawStr (At 0) 32 RssiLine,
      DrawStr (At 0) 48 (Lit ''Awaiting NTP time...''),
      SendBuffer]"
proof -
  from assms obtain s0 where s0: "setup_before_init si = Some s0"
    and s: "s = initTime pf tz (init_ok si) s0"
    by (auto simp: setup_proc_def split: option.splits)
  have h: "filter frame_event setup_head =
     [ClearBuffer, DrawStr (CentredOn 64) 0 (Lit ''Connecting to:''),
      DrawStr (CentredOn 64) 27 (Lit chSSID), SendBuffer]"
    by (simp add: setup_head_def FONT_ONE_HEIGHT_def)
  have t: "filter frame_event setup_tail =
     [ClearBuffer,
      DrawStr (CentredOn 64) 0 (Lit ''WiFi Stats:''),
      DrawStr (At 0) 16 IpLine,
      DrawStr (At 0) 24 (Lit (''SSID: '' @ chSSID)),
      DrawStr (At 0) 32 RssiLine,
      DrawStr (At 0) 48 (Lit ''Awaiting NTP time...''),
      SendBuffer]"
    by (simp add: setup_tail_def FONT_ONE_HEIGHT_def)
  show ?thesis
    by (simp add: s initTime_trace setup_before_init_trace [OF s0] wifi_wait_events_filter h t)
qed

subsection \<open>What the panel shows\<close>

lemma display_step_other: "\<not> frame_event e \<Longrightarrow> display_step e d = d"
  by (cases e; cases d) simp_all

lemma display_after_append:
  "display_after (xs @ ys) d = display_after ys (display_after xs d)"
  by (simp add: display_after_def)

lemma display_after_noframe:
  "filter frame_event es = [] \<Longrightarrow> display_after es d = d"
  by (induction es arbitrary: d)
     (auto simp: display_after_def display_step_other split: if_splits)

lemma display_after_render:
  "display_after (render_events raw lt) d =
     ([DateText lt, TimeText lt], [DateText lt, TimeText lt])"
  by (cases d) (simp add: display_after_def render_events_def)

lemma shown_keep:
  assumes "trace s' = trace s @ es" and "filter frame_event es = []"
  shows "shown s' = shown s"
  using assms by (simp add: shown_def display_after_append display_after_noframe)

lemma shown_render:
  assumes "trace s' = trace s @ es @ render_events raw lt @ es'"
    and "filter frame_event es' = []"
  shows "shown s' = [DateText lt, TimeText lt]"
  using assms
  by (simp add: shown_def display_after_append display_after_noframe display_after_render)

lemma pass_shown:
  assumes m: "resync_step T inp (acquire_step pf inp s) = Some m"
  shows "shown (emit [Delay 200] (render_step pf inp m)) =
           (if bTimeReceived m
            then [DateText (localtime pf m (now inp)), TimeText (localtime pf m (now inp))]
            else shown s)"
proof -
  obtain es where es: "trace (acquire_step pf inp s) = trace s @ es" "filter frame_event es = []"
    using acquire_step_trace by blast
  obtain es' where es': "trace m = trace (acquire_step pf inp s) @ es'"
    "filter frame_event es' = []"
    using resync_step_trace [OF m] by blast
  show ?thesis
  proof (cases "bTimeReceived m")
    case True
    then have "trace (emit [Delay 200] (render_step pf inp m)) =
        trace s @ (es @ es') @ render_events (now inp) (localtime pf m (now inp)) @ [Delay 200]"
      by (simp add: render_step_trace es es')
    from shown_render [OF this] True show ?thesis by simp
  next
    case False
    then have "trace (emit [Delay 200] (render_step pf inp m)) = trace s @ (es @ es' @ [Delay 200])"
      by (simp add: render_step_trace es es')
    from shown_keep [OF this] False es es' show ?thesis by simp
  qed
qed

lemma acquire_step_acquired:
  "acquired (acquire_step pf inp s) \<longleftrightarrow> acquired s \<or> (\<not> bTimeReceived s \<and> ntp_ok inp)"
  by (simp add: acquire_step_def updateNtpTime_acquired)

lemma resync_step_acquired:
  assumes "resync_step T inp a = Some m"
  shows "acquired m \<longleftrightarrow> acquired a"
proof (cases "resync_due T a")
  case True
  with assms have "reassociate inp a = Some m" by (simp add: resync_step_def)
  from reassociate_Some(5) [OF this] wifi_wait_events_set [of "wifi_polls inp"]
  show ?thesis by (auto simp: acquired_def)
next
  case False
  with assms show ?thesis by (simp add: resync_step_def)
qed

lemma render_step_acquired:
  "acquired (emit [Delay 200] (render_step pf inp m)) \<longleftrightarrow> acquired m"
  by (auto simp: acquired_def render_step_trace render_events_def)

lemma pass_clock_shown:
  assumes T: "0 \<le> T" and inv: "clock_inv T s"
    and J: "acquired s \<longrightarrow>
            (\<exists>t. shown s = [DateText t, TimeText t]) \<or> (bTimeReceived s \<and> refresh s = 0)"
    and step: "loop_thr pf T inp s = Some s'" and acq: "acquired s'"
  shows "\<exists>t. shown s' = [DateText t, TimeText t]"
proof -
  let ?a = "acquire_step pf inp s"
  from step obtain m where m: "resync_step T inp ?a = Some m"
    and s': "s' = emit [Delay 200] (render_step pf inp m)"
    by (auto simp: loop_thr_def split: option.splits)
  show ?thesis
  proof (cases "bTimeReceived m")
    case True
    with pass_shown [OF m] show ?thesis by (simp add: s')
  next
    case False
    with pass_shown [OF m] have keep: "shown s' = shown s" by (simp add: s')
    have fresh: "\<not> resync_due T ?a" if "bTimeReceived ?a" "refresh s = 0"
      using that inv T by (auto simp: resync_due_def acquire_step_flags clock_inv_def)
    have nf: "\<not> (bTimeReceived ?a \<and> refresh s = 0)"
    proof
      assume h: "bTimeReceived ?a \<and> refresh s = 0"
      with fresh have "\<not> resync_due T ?a" by simp
      with m have "m = ?a" by (simp add: resync_step_def)
      with h False show False by simp
    qed
    from inv have r0: "\<not> bTimeReceived s \<longrightarrow> refresh s = 0" by (simp add: clock_inv_def)
    from acq have "acquired m" by (simp add: s' render_step_acquired)
    with resync_step_acquired [OF m] have "acquired ?a" by simp
    with nf r0 have as: "acquired s" by (auto simp: acquire_step_acquired acquire_step_flags)
    from nf have "\<not> (bTimeReceived s \<and> refresh s = 0)" by (auto simp: acquire_step_flags)
    with J as keep show ?thesis by auto
  qed
qed

lemma run_clock_shown:
  assumes T: "0 \<le> T" "T + 1 < 2 ^ 31"
  shows "clock_inv T s \<Longrightarrow>
         (acquired s \<longrightarrow>
            (\<exists>t. shown s = [DateText t, TimeText t]) \<or> (bTimeReceived s \<and> refresh s = 0)) \<Longrightarrow>
         run_thr pf T ins s = Some s' \<Longrightarrow>
         acquired s' \<longrightarrow>
            (\<exists>t. shown s' = [DateText t, TimeText t]) \<or> (bTimeReceived s' \<and> refresh s' = 0)"
proof (induction ins arbitrary: s)
  case Nil then show ?case by simp
next
  case (Cons i ins)
  from Cons.prems(3) obtain m where m: "loop_thr pf T i s = Some m" "run_thr pf T ins m = Some s'"
    by (auto split: option.splits)
  from clock_inv_loop [OF T Cons.prems(1) m(1)] have cm: "clock_inv T m" by simp
  from pass_clock_shown [OF T(1) Cons.prems(1) Cons.prems(2) m(1)]
  have "acquired m \<longrightarrow>
          (\<exists>t. shown m = [DateText t, TimeText t]) \<or> (bTimeReceived m \<and> refresh m = 0)"
    by blast
  from Cons.IH [OF cm this m(2)] show ?case .
qed

lemma sketch_clock_shown:
  assumes "sketch pf si ins = Some r" and "acquired r" and "\<not> bTimeReceived r"
  shows "\<exists>t. shown r = [DateText t, TimeText t]"
proof -
  from assms(1) obtain s0 where s0: "setup_proc pf si = Some s0"
    and run: "run_thr pf RESYNC_THRESHOLD ins s0 = Some r"
    by (auto simp: sketch_def split: option.splits)
  have T: "0 \<le> RESYNC_THRESHOLD" "RESYNC_THRESHOLD + 1 < 2 ^ 31"
    by (simp_all add: RESYNC_THRESHOLD_def)
  from setup_proc_acquired [OF s0] setup_proc_flags [OF s0]
  have "acquired s0 \<longrightarrow>
          (\<exists>t. shown s0 = [DateText t, TimeText t]) \<or> (bTimeReceived s0 \<and> refresh s0 = 0)"
    by simp
  from run_clock_shown [OF T clock_inv_setup [OF T(1) s0] this run] assms(2,3)
  show ?thesis by blast
qed

lemma display_after_filter:
  "display_after es d = display_after (filter frame_event es) d"
  by (induction es arbitrary: d) (simp_all add: display_after_def display_step_other)

lemma setup_proc_shown:
  assumes "setup_proc pf si = Some s"
  shows "shown s =
     [Lit ''WiFi Stats:'', IpLine, Lit (''SSID: '' @ chSSID), RssiLine,
      Lit ''Awaiting NTP time...'']"
proof -
  have "shown s = snd (display_after (filter frame_event (trace s)) ([], []))"
    using display_after_filter [of "trace s"] by (simp add: shown_def)
  then show ?thesis
    by (simp add: setup_proc_frames [OF assms] display_after_def)
qed

lemma shown_frames:
  "filter frame_event (trace s') = filter frame_event (trace s) \<Longrightarrow> shown s' = shown s"
  using display_after_filter [of "trace s"] display_after_filter [of "trace s'"]
  by (simp add: shown_def)

lemma setup_proc_tz:
  assumes "setup_proc pf si = Some s" and "init_ok si"
  shows "tz_env s = Some tz"
  using assms by (auto simp: setup_proc_def acquire_tz_env split: option.splits)

lemma run_synced_display:
  assumes T: "0 \<le> T" "T + 1 < 2 ^ 31"
  shows "bTimeReceived s \<Longrightarrow> start s = 1 \<Longrightarrow> 0 \<le> refresh s \<Longrightarrow>
         refresh s + int (length ins) \<le> T + 1 \<Longrightarrow> run_thr pf T ins s = Some s' \<Longrightarrow>
         tz_env s' = tz_env s \<and>
         (ins \<noteq> [] \<longrightarrow>
            shown s' = [DateText (localtime pf s (now (last ins))),
                        TimeText (localtime pf s (now (last ins)))])"
proof (induction ins arbitrary: s)
  case Nil then show ?case by simp
next
  case (Cons i ins)
  let ?m = "emit [Delay 200] (render_step pf i s)"
  from Cons.prems have a: "acquire_step pf i s = s" by (simp add: acquire_step_def)
  from Cons.prems have nd: "\<not> resync_due T s" by (simp add: resync_due_def)
  then have rs: "resync_step T i (acquire_step pf i s) = Some s" by (simp add: a resync_step_def)
  then have step: "loop_thr pf T i s = Some ?m" by (simp add: loop_thr_def)
  with Cons.prems(5) have run: "run_thr pf T ins ?m = Some s'" by simp
  from Cons.prems T have "int32 (refresh s + 1) = refresh s + 1"
    by (intro int32_id) simp_all
  with Cons.prems have m: "bTimeReceived ?m" "start ?m = 1" "0 \<le> refresh ?m"
    "refresh ?m + int (length ins) \<le> T + 1"
    by (simp_all add: render_step_flags)
  have tzm: "tz_env ?m = tz_env s" by (simp add: render_step_flags)
  from pass_shown [OF rs] Cons.prems(1)
  have sm: "shown ?m = [DateText (localtime pf s (now i)), TimeText (localtime pf s (now i))]"
    by simp
  from Cons.IH [OF m run] have ih: "tz_env s' = tz_env ?m"
    "ins \<noteq> [] \<longrightarrow> shown s' = [DateText (localtime pf ?m (now (last ins))),
                                   TimeText (localtime pf ?m (now (last ins)))]"
    by simp_all
  show ?case
  proof (cases "ins = []")
    case True
    with run have "s' = ?m" by simp
    with True sm tzm show ?thesis by simp
  next
    case False
    with ih tzm show ?thesis by (simp add: localtime_def)
  qed
qed

lemma resync_run:
  "\<exists>r. sketch est_platform (boot True) (replicate 16201 (pass True) @ [pass True]) = Some r \<and>
       \<not> bTimeReceived r \<and> acquired r \<and>
       shown r = [DateText 1704049200, TimeText 1704049200]"
proof -
  let ?ins = "replicate 16201 (pass True)"
  have T: "0 \<le> RESYNC_THRESHOLD" "RESYNC_THRESHOLD + 1 < 2 ^ 31"
    by (simp_all add: RESYNC_THRESHOLD_def)
  obtain s0 where s0: "setup_proc est_platform (boot True) = Some s0"
    using setup_proc_boot by blast
  from setup_proc_flags [OF s0] have f0: "bTimeReceived s0" "start s0 = 1" "refresh s0 = 0"
    by (simp_all add: boot_def)
  from setup_proc_tz [OF s0] have tz0: "tz_env s0 = Some tz" by (simp add: boot_def)
  from setup_proc_acquired [OF s0] have a0: "acquired s0" by (simp add: boot_def)
  have len: "refresh s0 + int (length ?ins) \<le> RESYNC_THRESHOLD + 1"
    by (simp add: f0 RESYNC_THRESHOLD_def)
  from run_counts [OF T f0(1) f0(2) _ len, of est_platform] f0 obtain m where
    m: "run_thr est_platform RESYNC_THRESHOLD ?ins s0 = Some m" "bTimeReceived m"
       "start m = 1" "refresh m = 16201"
    by auto
  from run_synced_display [OF T f0(1) f0(2) _ len m(1)] f0
  have "shown m = [DateText (localtime est_platform s0 (now (last ?ins))),
                   TimeText (localtime est_platform s0 (now (last ?ins)))]"
    by simp
  then have sm: "shown m = [DateText 1704049200, TimeText 1704049200]"
    by (simp add: localtime_def tz0 est_platform_def pass_def)
  have a: "acquire_step est_platform (pass True) m = m"
    using m(2) by (simp add: acquire_step_def)
  have due: "resync_due RESYNC_THRESHOLD (acquire_step est_platform (pass True) m)"
    using m by (simp add: a resync_due_def RESYNC_THRESHOLD_def)
  have "True \<in> set (wifi_polls (pass True))" by (simp add: pass_def)
  with loop_thr_None [of est_platform RESYNC_THRESHOLD "pass True" m]
  obtain s' where s': "loop_thr est_platform RESYNC_THRESHOLD (pass True) m = Some s'"
    by auto
  note d = loop_thr_due [OF due s']
  from d(4) have "trace s' = trace m @
      (WiFiBegin chSSID chPassword # wifi_wait_events (wifi_polls (pass True)) @ [Delay 200])"
    by (simp add: a)
  from shown_keep [OF this] have keep: "shown s' = shown m"
    by (simp add: wifi_wait_events_filter)
  from m(1) s' have run: "run_thr est_platform RESYNC_THRESHOLD (?ins @ [pass True]) s0 = Some s'"
    by (simp add: run_thr_append)
  from run_thr_extends [OF run] a0 have "acquired s'" using acquired_mono by blast
  moreover from s0 run
  have "sketch est_platform (boot True) (?ins @ [pass True]) = Some s'"
    by (simp add: sketch_def)
  ultimately show ?thesis using d(1) sm keep by simp
qed

section \<open>The claims\<close>

subsection \<open>C1\<close>

text \<open>
  C1. A successful acquisition completes with \<open>bTimeReceived\<close> true, \<open>start = 1\<close> and
  \<open>refresh = 0\<close>: for \<open>initTime\<close> in the state in which \<open>setup\<close> calls it, and for
  \<open>updateNtpTime\<close> in every state in which \<open>loop\<close> calls it, that is every state
  reached by \<open>setup\<close> and any number of passes in which \<open>bTimeReceived\<close> is false.
  Neither function writes \<open>refresh\<close> (\<open>updateNtpTime_flags\<close>, \<open>initTime_flags\<close>);
  it is 0 because it is 0 wherever they are called (\<open>clock_inv\<close>).
\<close>

theorem acquire_success_post:
  "(setup_before_init si = Some s0 \<longrightarrow>
      bTimeReceived (initTime pf tz True s0) = True \<and>
      start (initTime pf tz True s0) = 1 \<and>
      refresh (initTime pf tz True s0) = 0) \<and>
   (sketch pf si ins = Some s \<and> bTimeReceived s = False \<longrightarrow>
      bTimeReceived (updateNtpTime pf tz True s) = True \<and>
      start (updateNtpTime pf tz True s) = 1 \<and>
      refresh (updateNtpTime pf tz True s) = 0)"
  using clock_inv_sketch [of pf si ins s] setup_before_init_flags [of si s0]
  by (auto simp: initTime_flags updateNtpTime_flags clock_inv_def)

theorem acquire_success_post_witness:
  "\<exists>s0 s. setup_before_init (boot False) = Some s0 \<and>
          bTimeReceived (initTime est_platform tz True s0) = True \<and>
          start (initTime est_platform tz True s0) = 1 \<and>
          refresh (initTime est_platform tz True s0) = 0 \<and>
          sketch est_platform (boot False) [pass False] = Some s \<and>
          bTimeReceived s = False \<and>
          bTimeReceived (updateNtpTime est_platform tz True s) = True \<and>
          start (updateNtpTime est_platform tz True s) = 1 \<and>
          refresh (updateNtpTime est_platform tz True s) = 0"
proof -
  obtain s0 where s0: "setup_before_init (boot False) = Some s0"
    by (simp add: setup_before_init_def boot_def)
  obtain s where s: "sketch est_platform (boot False) [pass False] = Some s"
    by (simp add: run_defs initTime_flags updateNtpTime_flags)
  have "map_option bTimeReceived (sketch est_platform (boot False) [pass False]) = Some False"
    by (simp add: run_defs initTime_flags updateNtpTime_flags)
  with s have r: "bTimeReceived s = False" by simp
  from acquire_success_post [of "boot False" s0 est_platform "[pass False]" s] s0 s r
  show ?thesis by simp
qed

subsection \<open>C2\<close>

text \<open>
  C2, as amended. The test \<open>refresh > T\<close> of line 265 comes before the increment of
  line 280. Starting with \<open>bTimeReceived\<close> true, \<open>start = 1\<close> and \<open>refresh = 0\<close>, the
  first \<open>T + 1\<close> passes all find the condition false and increment \<open>refresh\<close>, up to
  \<open>T + 1\<close>; the condition is true for the first time in pass \<open>T + 2\<close>, which (once
  the station is associated again) ends with \<open>bTimeReceived\<close> false and \<open>refresh = 0\<close>.
  With threshold 3 the passes decide no, no, no, no, yes.
\<close>

theorem resync_threshold_amended:
  assumes "0 \<le> T" and "T + 1 < 2 ^ 31"
    and "bTimeReceived s" and "start s = 1" and "refresh s = 0"
    and "int (length ins) = T + 1"
    and "True \<in> set (wifi_polls inp)"
  shows "due_log pf T (ins @ [inp]) s = replicate (length ins) False @ [True] \<and>
         map_option bTimeReceived (run_thr pf T ins s) = Some True \<and>
         map_option refresh (run_thr pf T ins s) = Some (T + 1) \<and>
         map_option bTimeReceived (run_thr pf T (ins @ [inp]) s) = Some False \<and>
         map_option refresh (run_thr pf T (ins @ [inp]) s) = Some 0"
proof -
  from run_then_resync [OF assms, of pf] obtain m s' where
    r: "run_thr pf T ins s = Some m" "bTimeReceived m" "refresh m = T + 1"
       "due_log pf T ins s = replicate (length ins) False"
       "resync_due T (acquire_step pf inp m)"
       "loop_thr pf T inp m = Some s'" "bTimeReceived s' = False" "refresh s' = 0"
    by blast
  from r have "due_log pf T (ins @ [inp]) s = replicate (length ins) False @ [True]"
    by (simp add: due_log_append)
  moreover from r have "run_thr pf T (ins @ [inp]) s = Some s'"
    by (simp add: run_thr_append)
  ultimately show ?thesis using r by simp
qed

theorem resync_threshold_amended_witness:
  "due_log est_platform 3 ([pass True, pass True, pass True, pass True] @ [pass True]) synced =
     [False, False, False, False, True] \<and>
   map_option bTimeReceived
     (run_thr est_platform 3 [pass True, pass True, pass True, pass True] synced) = Some True \<and>
   map_option refresh
     (run_thr est_platform 3 [pass True, pass True, pass True, pass True] synced) = Some 4 \<and>
   map_option bTimeReceived
     (run_thr est_platform 3 ([pass True, pass True, pass True, pass True] @ [pass True]) synced) =
     Some False \<and>
   map_option refresh
     (run_thr est_platform 3 ([pass True, pass True, pass True, pass True] @ [pass True]) synced) =
     Some 0"
proof -
  have w: "True \<in> set (wifi_polls (pass True))" by (simp add: pass_def)
  have n: "int (length [pass True, pass True, pass True, pass True]) = 3 + 1" by simp
  from resync_threshold_amended [OF _ _ synced_flags n w, of est_platform]
  show ?thesis by simp
qed

text \<open>
  C2 as stated fails: with threshold 3 the first three passes from \<open>refresh = 0\<close> all
  find the condition false, and after the third \<open>bTimeReceived\<close> is still true and
  \<open>refresh\<close> is 3, not 0. With the threshold of the sketch the condition is false in
  each of the first 16201 passes.
\<close>

theorem resync_threshold_counterexample:
  "due_log est_platform 3 [pass True, pass True, pass True] synced = [False, False, False] \<and>
   map_option bTimeReceived
     (run_thr est_platform 3 [pass True, pass True, pass True] synced) = Some True \<and>
   map_option refresh
     (run_thr est_platform 3 [pass True, pass True, pass True] synced) = Some 3 \<and>
   due_log est_platform RESYNC_THRESHOLD (replicate 16201 (pass True)) synced =
     replicate 16201 False"
proof -
  have "\<exists>s'. run_thr est_platform 3 [pass True, pass True, pass True] synced = Some s' \<and>
          bTimeReceived s' \<and> start s' = 1 \<and>
          refresh s' = refresh synced + int (length [pass True, pass True, pass True]) \<and>
          due_log est_platform 3 [pass True, pass True, pass True] synced =
            replicate (length [pass True, pass True, pass True]) False"
    by (intro run_counts) (simp_all add: synced_flags)
  moreover
  have "\<exists>s'. run_thr est_platform RESYNC_THRESHOLD (replicate 16201 (pass True)) synced = Some s' \<and>
          bTimeReceived s' \<and> start s' = 1 \<and>
          refresh s' = refresh synced + int (length (replicate 16201 (pass True))) \<and>
          due_log est_platform RESYNC_THRESHOLD (replicate 16201 (pass True)) synced =
            replicate (length (replicate 16201 (pass True))) False"
    by (intro run_counts) (simp_all add: synced_flags RESYNC_THRESHOLD_def)
  ultimately show ?thesis by (auto simp: synced_flags numeral_3_eq_3)
qed

subsection \<open>C3\<close>

text \<open>
  C3, as amended. Let \<open>m\<close> be the state in which a pass evaluates the condition of
  line 265. Whenever \<open>bTimeReceived\<close> is true there, \<open>start\<close> is 1. The condition is
  evaluated in every pass, also with \<open>bTimeReceived\<close> false, and \<open>start\<close> is 0 there
  exactly in the first pass after an \<open>initTime\<close> that failed when the
  \<open>updateNtpTime\<close> of that pass has failed too; then \<open>refresh\<close> is 0 and the branch
  is taken through \<open>start == 0\<close> alone. In every later pass the condition holds only
  through \<open>refresh > 16200\<close>.
\<close>

theorem start_zero_disjunct:
  assumes "decision_state pf si ins inp = Some m"
  shows "(bTimeReceived m \<longrightarrow> start m = 1) \<and>
         (start m = 0 \<longleftrightarrow> ins = [] \<and> \<not> init_ok si \<and> \<not> ntp_ok inp) \<and>
         (start m = 0 \<longrightarrow> \<not> bTimeReceived m \<and> refresh m = 0 \<and> resync_due RESYNC_THRESHOLD m) \<and>
         (ins \<noteq> [] \<longrightarrow> resync_due RESYNC_THRESHOLD m = (RESYNC_THRESHOLD < refresh m))"
proof -
  from assms obtain s where s: "sketch pf si ins = Some s" and m: "m = acquire_step pf inp s"
    by (auto simp: decision_state_def)
  from clock_inv_sketch [OF s] have inv: "clock_inv RESYNC_THRESHOLD s" .
  show ?thesis
  proof (cases "ins = []")
    case True
    with s sketch_Nil_flags [of pf si s] inv show ?thesis
      by (auto simp: m acquire_step_flags resync_due_def clock_inv_def)
  next
    case False
    from sketch_start [OF s False] inv False show ?thesis
      by (auto simp: m acquire_step_flags resync_due_def clock_inv_def)
  qed
qed

theorem start_zero_disjunct_witness:
  "(\<exists>m. decision_state est_platform (boot False) [] (pass False) = Some m \<and>
      \<not> bTimeReceived m \<and> start m = 0 \<and> refresh m = 0 \<and> resync_due RESYNC_THRESHOLD m) \<and>
   (\<exists>m. decision_state est_platform (boot False) [pass False] (pass True) = Some m \<and>
      bTimeReceived m \<and> start m = 1 \<and> \<not> resync_due RESYNC_THRESHOLD m \<and>
      \<not> RESYNC_THRESHOLD < refresh m)"
proof
  obtain s where s: "sketch est_platform (boot False) [] = Some s"
    using sketch_boot by blast
  then have d: "decision_state est_platform (boot False) [] (pass False) =
      Some (acquire_step est_platform (pass False) s)"
    by (simp add: decision_state_def)
  from start_zero_disjunct [OF d] d
  show "\<exists>m. decision_state est_platform (boot False) [] (pass False) = Some m \<and>
      \<not> bTimeReceived m \<and> start m = 0 \<and> refresh m = 0 \<and> resync_due RESYNC_THRESHOLD m"
    by (simp add: boot_def pass_def)
next
  obtain s where s: "sketch est_platform (boot False) [pass False] = Some s"
    by (simp add: run_defs initTime_flags updateNtpTime_flags)
  then have d: "decision_state est_platform (boot False) [pass False] (pass True) =
      Some (acquire_step est_platform (pass True) s)"
    by (simp add: decision_state_def)
  from clock_inv_sketch [OF s] have "refresh s \<le> RESYNC_THRESHOLD + 1" by (simp add: clock_inv_def)
  have "map_option refresh (sketch est_platform (boot False) [pass False]) = Some 0"
    by (simp add: run_defs initTime_flags updateNtpTime_flags)
  with s have r: "refresh s = 0" by simp
  have "map_option bTimeReceived (sketch est_platform (boot False) [pass False]) = Some False"
    by (simp add: run_defs initTime_flags updateNtpTime_flags)
  with s have b: "\<not> bTimeReceived s" by simp
  from start_zero_disjunct [OF d] d r b
  show "\<exists>m. decision_state est_platform (boot False) [pass False] (pass True) = Some m \<and>
      bTimeReceived m \<and> start m = 1 \<and> \<not> resync_due RESYNC_THRESHOLD m \<and>
      \<not> RESYNC_THRESHOLD < refresh m"
    by (simp add: acquire_step_flags pass_def RESYNC_THRESHOLD_def)
qed

text \<open>
  C3 as stated fails: after a failed \<open>initTime\<close> and a failed \<open>updateNtpTime\<close> the
  first pass evaluates the condition with \<open>bTimeReceived\<close> false, \<open>start = 0\<close> and
  \<open>refresh = 0\<close>, and the condition holds.
\<close>

theorem start_zero_disjunct_counterexample:
  "map_option bTimeReceived (decision_state est_platform (boot False) [] (pass False)) = Some False \<and>
   map_option start (decision_state est_platform (boot False) [] (pass False)) = Some 0 \<and>
   map_option refresh (decision_state est_platform (boot False) [] (pass False)) = Some 0 \<and>
   map_option (resync_due RESYNC_THRESHOLD)
     (decision_state est_platform (boot False) [] (pass False)) = Some True"
proof -
  obtain s where s: "sketch est_platform (boot False) [] = Some s"
    using sketch_boot by blast
  from sketch_Nil_flags [OF s] have "\<not> bTimeReceived s" "start s = 0" "refresh s = 0"
    by (simp_all add: boot_def)
  with s show ?thesis
    by (simp add: decision_state_def acquire_step_flags resync_due_def pass_def)
qed

subsection \<open>C4\<close>

text \<open>
  C4. A failing acquisition, \<open>getLocalTime\<close> returning false in \<open>initTime\<close> or in
  \<open>updateNtpTime\<close>, sets \<open>bTimeReceived\<close> to false and leaves \<open>start\<close> and
  \<open>refresh\<close> as they were at entry, whatever the state at entry.
\<close>

theorem acquire_failure_post:
  "bTimeReceived (initTime pf z False s) = False \<and>
   start (initTime pf z False s) = start s \<and>
   refresh (initTime pf z False s) = refresh s \<and>
   bTimeReceived (updateNtpTime pf z False s) = False \<and>
   start (updateNtpTime pf z False s) = start s \<and>
   refresh (updateNtpTime pf z False s) = refresh s"
  by (simp add: initTime_flags updateNtpTime_flags)

theorem acquire_failure_post_witness:
  "bTimeReceived (updateNtpTime est_platform tz False synced) = False \<and>
   start (updateNtpTime est_platform tz False synced) = 1 \<and>
   refresh (updateNtpTime est_platform tz False synced) = 0 \<and>
   bTimeReceived (initTime est_platform tz False init_state) = False \<and>
   start (initTime est_platform tz False init_state) = 0 \<and>
   refresh (initTime est_platform tz False init_state) = 0"
  using acquire_failure_post [of est_platform tz synced]
    acquire_failure_post [of est_platform tz init_state]
  by (simp add: synced_def updateNtpTime_flags init_state_def)

subsection \<open>C5\<close>

text \<open>
  C5. A successful acquisition, by \<open>updateNtpTime\<close> or by \<open>initTime\<close> and from any
  state, calls \<open>configTime\<close> with offsets 0 and 0, then \<open>getLocalTime\<close>, and only then
  \<open>setenv("TZ", rule)\<close> and \<open>tzset\<close>. So whatever \<open>configTime\<close> does to the time zone
  environment, the environment on return is the rule, and the local time read for a raw
  time \<open>t\<close> is \<open>t\<close> plus the offset of the rule at \<open>t\<close>.
\<close>

theorem commit_before_timezone:
  "filter acquire_event (new_events s (updateNtpTime pf z True s)) =
     [ConfigTime 0 0 ''time-c.nist.gov'', GetLocalTime True, SetenvTZ z, Tzset] \<and>
   tz_env (updateNtpTime pf z True s) = Some z \<and>
   localtime pf (updateNtpTime pf z True s) t = t + tz_offset pf (Some z) t \<and>
   filter acquire_event (new_events s (initTime pf z True s)) =
     [ConfigTime 0 0 ''time-c.nist.gov'', GetLocalTime True, SetenvTZ z, Tzset] \<and>
   tz_env (initTime pf z True s) = Some z \<and>
   localtime pf (initTime pf z True s) t = t + tz_offset pf (Some z) t"
proof -
  have "new_events s (updateNtpTime pf z True s) =
     [SerialPrintln ''updateNtpTime: updating time'', ConfigTime 0 0 ''time-c.nist.gov'',
      Delay 200, GetLocalTime True, SerialPrintln ''  Got the updated time from NTP'',
      SerialPrint (''  Setting Timezone to '' @ z @ [CHR 0x0A]), SetenvTZ z, Tzset]"
    by (rule new_events_eq) (simp add: updateNtpTime_trace)
  moreover
  have "new_events s (initTime pf z True s) =
     [SerialPrintln ''initTime: initial setup of time'', ConfigTime 0 0 ''time-c.nist.gov'',
      Delay 200, GetLocalTime True, SerialPrintln ''  Got the time from NTP'',
      SerialPrint (''  Setting Timezone to '' @ z @ [CHR 0x0A]), SetenvTZ z, Tzset,
      SerialPrintln ''  Initial time set.'']"
    by (rule new_events_eq) (simp add: initTime_trace)
  ultimately show ?thesis by (simp add: acquire_tz_env localtime_def)
qed

theorem commit_before_timezone_witness:
  "filter acquire_event (new_events init_state (initTime est_platform tz True init_state)) =
     [ConfigTime 0 0 ''time-c.nist.gov'', GetLocalTime True, SetenvTZ tz, Tzset] \<and>
   tz_env (initTime est_platform tz True init_state) = Some tz \<and>
   localtime est_platform (initTime est_platform tz True init_state) 1704067200 = 1704049200 \<and>
   localtime est_platform (updateNtpTime est_platform tz True init_state) 1704067200 = 1704049200 \<and>
   localtime est_platform (configTime est_platform 0 0 ''time-c.nist.gov'' (setTimezone tz init_state))
     1704067200 = 1704067200"
proof -
  have "localtime est_platform
          (configTime est_platform 0 0 ''time-c.nist.gov'' (setTimezone tz init_state))
          1704067200 = 1704067200"
    by (simp add: localtime_def configTime_def setTimezone_def est_platform_def tz_def)
  with commit_before_timezone [of init_state est_platform tz 1704067200]
  show ?thesis by (simp add: est_platform_def)
qed

subsection \<open>C6\<close>

text \<open>
  C6. In every pass of every run, with \<open>m\<close> the state at the test of line 278: if
  \<open>bTimeReceived\<close> is true there, the pass increments \<open>refresh\<close> by exactly one over
  its value at the start of the pass; if it is false, the pass does not increment and
  \<open>refresh\<close> ends no larger than it started.
\<close>

theorem tick_only_while_received:
  assumes "sketch pf si ins = Some s"
    and "resync_step RESYNC_THRESHOLD inp (acquire_step pf inp s) = Some m"
  shows "loop pf inp s = Some (emit [Delay 200] (render_step pf inp m)) \<and>
         (bTimeReceived m \<longrightarrow>
            refresh (render_step pf inp m) = refresh m + 1 \<and> refresh m = refresh s) \<and>
         (\<not> bTimeReceived m \<longrightarrow>
            refresh (render_step pf inp m) = refresh m \<and> refresh m \<le> refresh s)"
proof -
  from clock_inv_sketch [OF assms(1)] have b: "0 \<le> refresh s" "refresh s \<le> 16201"
    by (simp_all add: clock_inv_def RESYNC_THRESHOLD_def)
  from resync_step_refresh [OF assms(2)] b
  have r: "0 \<le> refresh m" "refresh m \<le> 16200" "refresh m \<le> refresh s"
    "bTimeReceived m \<longrightarrow> refresh m = refresh s"
    by (auto simp: RESYNC_THRESHOLD_def acquire_step_flags)
  then have i: "int32 (refresh m + 1) = refresh m + 1" by (intro int32_id) simp_all
  have "loop pf inp s = Some (emit [Delay 200] (render_step pf inp m))"
    using assms(2) by (simp add: loop_def loop_thr_def)
  moreover have "refresh (render_step pf inp m) = (if bTimeReceived m then refresh m + 1 else refresh m)"
    by (simp add: render_step_flags i)
  ultimately show ?thesis using r by simp
qed

theorem tick_only_while_received_witness:
  "(\<exists>s m. sketch est_platform (boot True) [] = Some s \<and>
      resync_step RESYNC_THRESHOLD (pass True) (acquire_step est_platform (pass True) s) = Some m \<and>
      bTimeReceived m \<and> refresh s = 0 \<and> refresh m = 0 \<and>
      refresh (render_step est_platform (pass True) m) = 1 \<and>
      loop est_platform (pass True) s =
        Some (emit [Delay 200] (render_step est_platform (pass True) m))) \<and>
   (\<exists>s m. sketch est_platform (boot False) [] = Some s \<and>
      resync_step RESYNC_THRESHOLD (pass False) (acquire_step est_platform (pass False) s) = Some m \<and>
      \<not> bTimeReceived m \<and> refresh s = 0 \<and> refresh m = 0 \<and>
      refresh (render_step est_platform (pass False) m) = 0 \<and>
      loop est_platform (pass False) s =
        Some (emit [Delay 200] (render_step est_platform (pass False) m)))"
proof
  obtain s where s: "sketch est_platform (boot True) [] = Some s"
    using sketch_boot by blast
  from sketch_Nil_flags [OF s] have f: "bTimeReceived s" "start s = 1" "refresh s = 0"
    by (simp_all add: boot_def)
  then have m: "resync_step RESYNC_THRESHOLD (pass True) (acquire_step est_platform (pass True) s) = Some s"
    by (simp add: resync_step_def resync_due_def acquire_step_def RESYNC_THRESHOLD_def)
  from tick_only_while_received [OF s m] f s m
  show "\<exists>s m. sketch est_platform (boot True) [] = Some s \<and>
      resync_step RESYNC_THRESHOLD (pass True) (acquire_step est_platform (pass True) s) = Some m \<and>
      bTimeReceived m \<and> refresh s = 0 \<and> refresh m = 0 \<and>
      refresh (render_step est_platform (pass True) m) = 1 \<and>
      loop est_platform (pass True) s =
        Some (emit [Delay 200] (render_step est_platform (pass True) m))"
    by auto
next
  obtain s where s: "sketch est_platform (boot False) [] = Some s"
    using sketch_boot by blast
  from sketch_Nil_flags [OF s] have f: "\<not> bTimeReceived s" "start s = 0" "refresh s = 0"
    by (simp_all add: boot_def)
  let ?a = "acquire_step est_platform (pass False) s"
  have "True \<in> set (wifi_polls (pass False))" by (simp add: pass_def)
  then obtain m where r: "reassociate (pass False) ?a = Some m"
    using reassociate_None [of "pass False" ?a] by auto
  from f have "resync_due RESYNC_THRESHOLD ?a"
    by (simp add: resync_due_def acquire_step_flags pass_def)
  with r have m: "resync_step RESYNC_THRESHOLD (pass False) ?a = Some m"
    by (simp add: resync_step_def)
  from reassociate_Some [OF r] have fm: "\<not> bTimeReceived m" "refresh m = 0" by simp_all
  from tick_only_while_received [OF s m] f fm s m
  show "\<exists>s m. sketch est_platform (boot False) [] = Some s \<and>
      resync_step RESYNC_THRESHOLD (pass False) (acquire_step est_platform (pass False) s) = Some m \<and>
      \<not> bTimeReceived m \<and> refresh s = 0 \<and> refresh m = 0 \<and>
      refresh (render_step est_platform (pass False) m) = 0 \<and>
      loop est_platform (pass False) s =
        Some (emit [Delay 200] (render_step est_platform (pass False) m))"
    by auto
qed

subsection \<open>C7\<close>

text \<open>
  C7, as amended. \<open>start\<close> is only ever 0 or 1, and in every state reached by
  \<open>setup\<close> and any number of passes it is 1 exactly when an acquisition has
  succeeded or at least one pass of \<open>loop\<close> has completed: it goes from 0 to 1 at the
  first successful acquisition, or else, with no acquisition, at line 266 in the first
  pass, and it never returns to 0.
\<close>

theorem start_set_iff:
  assumes "sketch pf si ins = Some s"
  shows "(start s = 0 \<or> start s = 1) \<and> (start s = 1 \<longleftrightarrow> acquired s \<or> ins \<noteq> [])"
proof (cases "ins = []")
  case True
  with assms have s0: "setup_proc pf si = Some s"
    by (simp add: sketch_def split: option.splits)
  from setup_proc_flags [OF s0] setup_proc_acquired [OF s0] True show ?thesis by simp
next
  case False
  from sketch_start [OF assms False] False show ?thesis by simp
qed

theorem start_set_iff_witness:
  "(\<exists>s. sketch est_platform (boot False) [] = Some s \<and> start s = 0 \<and> \<not> acquired s) \<and>
   (\<exists>s. sketch est_platform (boot True) [] = Some s \<and> start s = 1 \<and> acquired s) \<and>
   (\<exists>s. sketch est_platform (boot False) [pass False] = Some s \<and> start s = 1)"
proof (intro conjI)
  obtain s where s: "sketch est_platform (boot False) [] = Some s"
    using sketch_boot by blast
  from sketch_Nil_flags [OF s] have "start s = 0" by (simp add: boot_def)
  with start_set_iff [OF s] s
  show "\<exists>s. sketch est_platform (boot False) [] = Some s \<and> start s = 0 \<and> \<not> acquired s"
    by simp
next
  obtain s where s: "sketch est_platform (boot True) [] = Some s"
    using sketch_boot by blast
  from sketch_Nil_flags [OF s] have "start s = 1" by (simp add: boot_def)
  with start_set_iff [OF s] s
  show "\<exists>s. sketch est_platform (boot True) [] = Some s \<and> start s = 1 \<and> acquired s"
    by simp
next
  obtain s where s: "sketch est_platform (boot False) [pass False] = Some s"
    by (simp add: run_defs initTime_flags updateNtpTime_flags)
  with start_set_iff [OF s]
  show "\<exists>s. sketch est_platform (boot False) [pass False] = Some s \<and> start s = 1"
    by simp
qed

text \<open>
  C7 as stated fails: when \<open>initTime\<close> and the \<open>updateNtpTime\<close> of the first pass both
  fail, the first pass ends with \<open>start = 1\<close> although \<open>getLocalTime\<close> has never
  returned true.
\<close>

theorem start_set_iff_counterexample:
  "map_option start (sketch est_platform (boot False) [pass False]) = Some 1 \<and>
   map_option acquired (sketch est_platform (boot False) [pass False]) = Some False"
proof -
  have "map_option start (sketch est_platform (boot False) [pass False]) = Some 1"
    by (simp add: run_defs initTime_flags updateNtpTime_flags)
  moreover
  have "map_option acquired (sketch est_platform (boot False) [pass False]) = Some False"
    by (simp add: run_defs initTime_flags updateNtpTime_flags acquired_def
        initTime_def updateNtpTime_def configTime_def setTimezone_def Let_def
        setup_head_def setup_tail_def)
  ultimately show ?thesis by simp
qed

subsection \<open>C8\<close>

text \<open>
  C8. Take a pass in which the condition of line 265 holds. The pass returns exactly
  when the station eventually reports that it is associated. When it returns,
  \<open>bTimeReceived\<close> is false and \<open>refresh\<close> is 0; after the test it has called
  \<open>WiFi.begin\<close>, polled \<open>WiFi.status\<close> until connected and slept, and nothing else: no
  call of an acquisition follows the test and the whole pass draws no frame. The next
  pass starts by calling \<open>updateNtpTime\<close>.
\<close>

theorem forced_resync_pass:
  assumes "resync_due RESYNC_THRESHOLD (acquire_step pf inp s)"
  shows "(loop pf inp s = None \<longleftrightarrow> True \<notin> set (wifi_polls inp)) \<and>
         (loop pf inp s = Some s' \<longrightarrow>
            bTimeReceived s' = False \<and> refresh s' = 0 \<and>
            new_events (acquire_step pf inp s) s' =
              WiFiBegin chSSID chPassword # wifi_wait_events (wifi_polls inp) @ [Delay 200] \<and>
            filter acquire_event (new_events (acquire_step pf inp s) s') = [] \<and>
            filter frame_event (new_events s s') = [] \<and>
            acquire_step pf inp' s' = updateNtpTime pf tz (ntp_ok inp') s')"
proof -
  have none: "loop pf inp s = None \<longleftrightarrow> True \<notin> set (wifi_polls inp)"
    using assms by (simp add: loop_def loop_thr_None)
  have some: "bTimeReceived s' = False \<and> refresh s' = 0 \<and>
            new_events (acquire_step pf inp s) s' =
              WiFiBegin chSSID chPassword # wifi_wait_events (wifi_polls inp) @ [Delay 200] \<and>
            filter acquire_event (new_events (acquire_step pf inp s) s') = [] \<and>
            filter frame_event (new_events s s') = [] \<and>
            acquire_step pf inp' s' = updateNtpTime pf tz (ntp_ok inp') s'"
    if "loop pf inp s = Some s'"
  proof -
    from that have step: "loop_thr pf RESYNC_THRESHOLD inp s = Some s'" by (simp add: loop_def)
    note d = loop_thr_due [OF assms step]
    from d(4) have ne: "new_events (acquire_step pf inp s) s' =
        WiFiBegin chSSID chPassword # wifi_wait_events (wifi_polls inp) @ [Delay 200]"
      by (intro new_events_eq) simp
    obtain es where es: "trace (acquire_step pf inp s) = trace s @ es" "filter frame_event es = []"
      using acquire_step_trace by blast
    from new_events_trans [OF es(1) d(4)] es(2)
    have "filter frame_event (new_events s s') = []"
      by (simp add: wifi_wait_events_filter)
    with d ne show ?thesis
      by (simp add: wifi_wait_events_filter acquire_step_def)
  qed
  from none some show ?thesis by blast
qed

theorem forced_resync_pass_witness:
  "\<exists>s'. loop est_platform (pass True) (synced\<lparr>refresh := 16201\<rparr>) = Some s' \<and>
      bTimeReceived s' = False \<and> refresh s' = 0 \<and>
      new_events (synced\<lparr>refresh := 16201\<rparr>) s' =
        [WiFiBegin chSSID chPassword, WiFiStatus False, SerialPrint ''.'', Delay 500,
         WiFiStatus True, Delay 200] \<and>
      acquire_step est_platform (pass False) s' = updateNtpTime est_platform tz False s'"
proof -
  let ?s = "synced\<lparr>refresh := 16201\<rparr>"
  have a: "acquire_step est_platform (pass True) ?s = ?s"
    by (simp add: acquire_step_def synced_flags)
  have due: "resync_due RESYNC_THRESHOLD (acquire_step est_platform (pass True) ?s)"
    by (simp add: a resync_due_def RESYNC_THRESHOLD_def)
  have w: "True \<in> set (wifi_polls (pass True))" by (simp add: pass_def)
  with forced_resync_pass [OF due] obtain s' where s': "loop est_platform (pass True) ?s = Some s'"
    by auto
  note f = forced_resync_pass [OF due, of s' "pass False", unfolded a]
  have "wifi_wait_events (wifi_polls (pass True)) =
      [WiFiStatus False, SerialPrint ''.'', Delay 500, WiFiStatus True]"
    by (simp add: wifi_wait_events_def pass_def)
  moreover have "ntp_ok (pass False) = False" by (simp add: pass_def)
  ultimately show ?thesis using f s' by simp
qed

subsection \<open>C9\<close>

text \<open>
  C9, as amended. In every pass of \<open>loop\<close> that reaches line 278, with \<open>m\<close> the state
  there: the acquisition and re-association steps before it touch no frame; if
  \<open>bTimeReceived\<close> is true at \<open>m\<close> the pass issues exactly \<open>clearBuffer\<close>, the date,
  the time and \<open>sendBuffer\<close>, in this order, and the panel then shows that date and
  time; if it is false the pass issues no frame call at all and the panel keeps what
  it showed before the pass. A pass that never reaches line 278 is stuck in the
  re-association loop, before any frame call. What the panel keeps while
  \<open>bTimeReceived\<close> is false: as long as no acquisition has succeeded, the
  "Awaiting NTP time..." frame of \<open>setup\<close>, the only frames of the run being the two
  of \<open>setup\<close>; once an acquisition has succeeded, a date and time frame, the last one
  rendered.
\<close>

theorem render_frame:
  "(resync_step RESYNC_THRESHOLD inp (acquire_step pf inp s) = Some m \<longrightarrow>
      loop pf inp s = Some (emit [Delay 200] (render_step pf inp m)) \<and>
      bTimeReceived (emit [Delay 200] (render_step pf inp m)) = bTimeReceived m \<and>
      filter frame_event (new_events s (acquire_step pf inp s)) = [] \<and>
      filter frame_event (new_events s m) = [] \<and>
      filter frame_event (new_events s (emit [Delay 200] (render_step pf inp m))) =
        (if bTimeReceived m
         then [ClearBuffer,
               DrawStr (CentredOn 60) 7 (DateText (localtime pf m (now inp))),
               DrawStr (At 10) 32 (TimeText (localtime pf m (now inp))),
               SendBuffer]
         else []) \<and>
      shown (emit [Delay 200] (render_step pf inp m)) =
        (if bTimeReceived m
         then [DateText (localtime pf m (now inp)), TimeText (localtime pf m (now inp))]
         else shown s)) \<and>
   (sketch pf si ins = Some r \<and> \<not> acquired r \<longrightarrow>
      \<not> bTimeReceived r \<and>
      filter frame_event (trace r) =
        [ClearBuffer,
         DrawStr (CentredOn 64) 0 (Lit ''Connecting to:''),
         DrawStr (CentredOn 64) 27 (Lit chSSID),
         SendBuffer,
         ClearBuffer,
         DrawStr (CentredOn 64) 0 (Lit ''WiFi Stats:''),
         DrawStr (At 0) 16 IpLine,
         DrawStr (At 0) 24 (Lit (''SSID: '' @ chSSID)),
         DrawStr (At 0) 32 RssiLine,
         DrawStr (At 0) 48 (Lit ''Awaiting NTP time...''),
         SendBuffer] \<and>
      shown r =
        [Lit ''WiFi Stats:'', IpLine, Lit (''SSID: '' @ chSSID), RssiLine,
         Lit ''Awaiting NTP time...'']) \<and>
   (sketch pf si ins = Some r \<and> acquired r \<and> \<not> bTimeReceived r \<longrightarrow>
      (\<exists>t. shown r = [DateText t, TimeText t]))"
proof -
  have pass: "loop pf inp s = Some (emit [Delay 200] (render_step pf inp m)) \<and>
      bTimeReceived (emit [Delay 200] (render_step pf inp m)) = bTimeReceived m \<and>
      filter frame_event (new_events s (acquire_step pf inp s)) = [] \<and>
      filter frame_event (new_events s m) = [] \<and>
      filter frame_event (new_events s (emit [Delay 200] (render_step pf inp m))) =
        (if bTimeReceived m
         then [ClearBuffer,
               DrawStr (CentredOn 60) 7 (DateText (localtime pf m (now inp))),
               DrawStr (At 10) 32 (TimeText (localtime pf m (now inp))),
               SendBuffer]
         else []) \<and>
      shown (emit [Delay 200] (render_step pf inp m)) =
        (if bTimeReceived m
         then [DateText (localtime pf m (now inp)), TimeText (localtime pf m (now inp))]
         else shown s)"
    if m: "resync_step RESYNC_THRESHOLD inp (acquire_step pf inp s) = Some m"
  proof (intro conjI)
    show "loop pf inp s = Some (emit [Delay 200] (render_step pf inp m))"
      using m by (simp add: loop_def loop_thr_def)
    show "bTimeReceived (emit [Delay 200] (render_step pf inp m)) = bTimeReceived m"
      by (simp add: render_step_flags)
    obtain es where es: "trace (acquire_step pf inp s) = trace s @ es" "filter frame_event es = []"
      using acquire_step_trace by blast
    obtain es' where es': "trace m = trace (acquire_step pf inp s) @ es'"
      "filter frame_event es' = []"
      using resync_step_trace [OF m] by blast
    show "filter frame_event (new_events s (acquire_step pf inp s)) = []"
      using es by (simp add: new_events_eq)
    show "filter frame_event (new_events s m) = []"
      using new_events_trans [OF es(1) es'(1)] es es' by simp
    have "trace (emit [Delay 200] (render_step pf inp m)) =
        trace s @ (es @ es') @
        ((if bTimeReceived m then render_events (now inp) (localtime pf m (now inp)) else [])
         @ [Delay 200])"
      by (simp add: render_step_trace es es')
    from new_events_eq [OF this] es es'
    show "filter frame_event (new_events s (emit [Delay 200] (render_step pf inp m))) =
             (if bTimeReceived m
              then [ClearBuffer,
                    DrawStr (CentredOn 60) 7 (DateText (localtime pf m (now inp))),
                    DrawStr (At 10) 32 (TimeText (localtime pf m (now inp))),
                    SendBuffer]
              else [])"
      by (simp add: render_events_def FONT_TWO_HEIGHT_def)
    show "shown (emit [Delay 200] (render_step pf inp m)) =
        (if bTimeReceived m
         then [DateText (localtime pf m (now inp)), TimeText (localtime pf m (now inp))]
         else shown s)"
      by (rule pass_shown [OF m])
  qed
  have idle: "\<not> bTimeReceived r \<and>
      filter frame_event (trace r) =
        [ClearBuffer,
         DrawStr (CentredOn 64) 0 (Lit ''Connecting to:''),
         DrawStr (CentredOn 64) 27 (Lit chSSID),
         SendBuffer,
         ClearBuffer,
         DrawStr (CentredOn 64) 0 (Lit ''WiFi Stats:''),
         DrawStr (At 0) 16 IpLine,
         DrawStr (At 0) 24 (Lit (''SSID: '' @ chSSID)),
         DrawStr (At 0) 32 RssiLine,
         DrawStr (At 0) 48 (Lit ''Awaiting NTP time...''),
         SendBuffer] \<and>
      shown r =
        [Lit ''WiFi Stats:'', IpLine, Lit (''SSID: '' @ chSSID), RssiLine,
         Lit ''Awaiting NTP time...'']"
    if r: "sketch pf si ins = Some r" and na: "\<not> acquired r"
  proof -
    from r obtain s0 where s0: "setup_proc pf si = Some s0"
      and run: "run_thr pf RESYNC_THRESHOLD ins s0 = Some r"
      by (auto simp: sketch_def split: option.splits)
    from run_thr_extends [OF run] na have "\<not> acquired s0" using acquired_mono by blast
    with setup_proc_acquired [OF s0] setup_proc_flags(1) [OF s0] have "\<not> bTimeReceived s0"
      by simp
    from run_thr_unacquired [OF run na this]
    have u: "\<not> bTimeReceived r" "filter frame_event (trace r) = filter frame_event (trace s0)"
      by simp_all
    from shown_frames [OF u(2)] setup_proc_shown [OF s0] u setup_proc_frames [OF s0]
    show ?thesis by simp
  qed
  have stale: "\<exists>t. shown r = [DateText t, TimeText t]"
    if "sketch pf si ins = Some r" "acquired r" "\<not> bTimeReceived r"
    using that by (rule sketch_clock_shown)
  from pass idle stale show ?thesis by blast
qed

theorem render_frame_witness:
  "loop est_platform (pass True) synced =
     Some (emit [Delay 200] (render_step est_platform (pass True) synced)) \<and>
   filter frame_event
     (new_events synced (emit [Delay 200] (render_step est_platform (pass True) synced))) =
     [ClearBuffer, DrawStr (CentredOn 60) 7 (DateText 1704049200),
      DrawStr (At 10) 32 (TimeText 1704049200), SendBuffer] \<and>
   shown (emit [Delay 200] (render_step est_platform (pass True) synced)) =
     [DateText 1704049200, TimeText 1704049200] \<and>
   (\<exists>m. resync_step RESYNC_THRESHOLD (pass False)
          (acquire_step est_platform (pass False) init_state) = Some m \<and>
        \<not> bTimeReceived m \<and>
        loop est_platform (pass False) init_state =
          Some (emit [Delay 200] (render_step est_platform (pass False) m)) \<and>
        filter frame_event
          (new_events init_state (emit [Delay 200] (render_step est_platform (pass False) m))) = [] \<and>
        shown (emit [Delay 200] (render_step est_platform (pass False) m)) = shown init_state) \<and>
   (\<exists>r. sketch est_platform (boot False) [pass False] = Some r \<and> \<not> acquired r \<and>
        \<not> bTimeReceived r \<and>
        shown r =
          [Lit ''WiFi Stats:'', IpLine, Lit (''SSID: '' @ chSSID), RssiLine,
           Lit ''Awaiting NTP time...'']) \<and>
   (\<exists>r t. sketch est_platform (boot True) (replicate 16201 (pass True) @ [pass True]) = Some r \<and>
        acquired r \<and> \<not> bTimeReceived r \<and> shown r = [DateText t, TimeText t])"
proof -
  have a: "acquire_step est_platform (pass True) synced = synced"
    by (simp add: acquire_step_def synced_flags)
  have m: "resync_step RESYNC_THRESHOLD (pass True) (acquire_step est_platform (pass True) synced) =
      Some synced"
    by (simp add: a resync_step_def resync_due_def synced_flags RESYNC_THRESHOLD_def)
  have lt: "localtime est_platform synced (now (pass True)) = 1704049200"
    by (simp add: localtime_def synced_def acquire_tz_env est_platform_def pass_def)
  note one = render_frame [where inp = "pass True" and pf = est_platform and s = synced and m = synced,
      unfolded lt]
  let ?a = "acquire_step est_platform (pass False) init_state"
  have due: "resync_due RESYNC_THRESHOLD ?a"
    by (simp add: resync_due_def acquire_step_flags init_state_def pass_def)
  have "True \<in> set (wifi_polls (pass False))" by (simp add: pass_def)
  then obtain m' where r: "reassociate (pass False) ?a = Some m'"
    using reassociate_None [of "pass False" ?a] by auto
  with due have m': "resync_step RESYNC_THRESHOLD (pass False) ?a = Some m'"
    by (simp add: resync_step_def)
  from reassociate_Some(1) [OF r] have nb: "\<not> bTimeReceived m'" by simp
  note two = render_frame [where inp = "pass False" and pf = est_platform and s = init_state and m = m']
  obtain r where r: "sketch est_platform (boot False) [pass False] = Some r"
    by (simp add: run_defs initTime_flags updateNtpTime_flags)
  have "map_option acquired (sketch est_platform (boot False) [pass False]) = Some False"
    by (simp add: run_defs initTime_flags updateNtpTime_flags acquired_def
        initTime_def updateNtpTime_def configTime_def setTimezone_def Let_def
        setup_head_def setup_tail_def)
  with r have na: "\<not> acquired r" by simp
  note three = render_frame [where pf = est_platform and si = "boot False" and ins = "[pass False]"
      and r = r]
  obtain q where q: "sketch est_platform (boot True) (replicate 16201 (pass True) @ [pass True]) = Some q"
    "\<not> bTimeReceived q" "acquired q"
    using resync_run by blast
  note four = render_frame [where pf = est_platform and si = "boot True"
      and ins = "replicate 16201 (pass True) @ [pass True]" and r = q]
  from one m have 1: "loop est_platform (pass True) synced =
     Some (emit [Delay 200] (render_step est_platform (pass True) synced)) \<and>
   filter frame_event
     (new_events synced (emit [Delay 200] (render_step est_platform (pass True) synced))) =
     [ClearBuffer, DrawStr (CentredOn 60) 7 (DateText 1704049200),
      DrawStr (At 10) 32 (TimeText 1704049200), SendBuffer] \<and>
   shown (emit [Delay 200] (render_step est_platform (pass True) synced)) =
     [DateText 1704049200, TimeText 1704049200]"
    by (simp add: synced_flags)
  from two m' nb have 2: "\<exists>m. resync_step RESYNC_THRESHOLD (pass False)
          (acquire_step est_platform (pass False) init_state) = Some m \<and>
        \<not> bTimeReceived m \<and>
        loop est_platform (pass False) init_state =
          Some (emit [Delay 200] (render_step est_platform (pass False) m)) \<and>
        filter frame_event
          (new_events init_state (emit [Delay 200] (render_step est_platform (pass False) m))) = [] \<and>
        shown (emit [Delay 200] (render_step est_platform (pass False) m)) = shown init_state"
    by simp
  from three r na have 3: "\<exists>r. sketch est_platform (boot False) [pass False] = Some r \<and> \<not> acquired r \<and>
        \<not> bTimeReceived r \<and>
        shown r =
          [Lit ''WiFi Stats:'', IpLine, Lit (''SSID: '' @ chSSID), RssiLine,
           Lit ''Awaiting NTP time...'']"
    by simp
  from four q have 4: "\<exists>r t. sketch est_platform (boot True) (replicate 16201 (pass True) @ [pass True]) = Some r \<and>
        acquired r \<and> \<not> bTimeReceived r \<and> shown r = [DateText t, TimeText t]"
    by auto
  from 1 2 3 4 show ?thesis by blast
qed

text \<open>
  C9 as stated fails in its last part: after 16201 synchronised passes the next pass
  takes the branch of line 265, and the run ends with \<open>bTimeReceived\<close> false while the
  panel shows the date and time of the last render, not the awaiting frame.
\<close>

theorem render_frame_counterexample:
  "map_option bTimeReceived
     (sketch est_platform (boot True) (replicate 16201 (pass True) @ [pass True])) = Some False \<and>
   map_option shown
     (sketch est_platform (boot True) (replicate 16201 (pass True) @ [pass True])) =
     Some [DateText 1704049200, TimeText 1704049200]"
  using resync_run by auto

subsection \<open>C10\<close>

text \<open>
  C10. In every state reached by \<open>setup\<close> and any number of passes, \<open>refresh\<close> lies
  between 0 and 16201. The increment of line 280 is only ever applied to a value of at
  most 16200, so it never wraps, and a pass entered with \<open>refresh > 16200\<close> ends with
  \<open>refresh = 0\<close>.
\<close>

theorem refresh_bounded:
  assumes "sketch pf si ins = Some s"
  shows "0 \<le> refresh s \<and> refresh s \<le> 16201 \<and>
         (resync_step RESYNC_THRESHOLD inp (acquire_step pf inp s) = Some m \<longrightarrow>
            0 \<le> refresh m \<and> refresh m \<le> 16200 \<and>
            refresh (render_step pf inp m) \<le> refresh m + 1) \<and>
         (16200 < refresh s \<and> loop pf inp s = Some s' \<longrightarrow> refresh s' = 0)"
proof -
  from clock_inv_sketch [OF assms] have inv: "clock_inv RESYNC_THRESHOLD s" .
  then have b: "0 \<le> refresh s" "refresh s \<le> 16201"
    by (simp_all add: clock_inv_def RESYNC_THRESHOLD_def)
  have mid: "0 \<le> refresh m \<and> refresh m \<le> 16200 \<and> refresh (render_step pf inp m) \<le> refresh m + 1"
    if m: "resync_step RESYNC_THRESHOLD inp (acquire_step pf inp s) = Some m"
  proof -
    from resync_step_refresh [OF m] b have r: "0 \<le> refresh m" "refresh m \<le> 16200"
      by (auto simp: RESYNC_THRESHOLD_def acquire_step_flags)
    then have "int32 (refresh m + 1) = refresh m + 1" by (intro int32_id) simp_all
    with r show ?thesis by (simp add: render_step_flags)
  qed
  have reset: "refresh s' = 0" if "16200 < refresh s" "loop pf inp s = Some s'"
  proof -
    from that(1) have "resync_due RESYNC_THRESHOLD (acquire_step pf inp s)"
      by (simp add: resync_due_def acquire_step_flags RESYNC_THRESHOLD_def)
    from loop_thr_due(3) [OF this] that(2) show ?thesis by (simp add: loop_def)
  qed
  from b mid reset show ?thesis by blast
qed

theorem refresh_bounded_witness:
  "\<exists>s s' m. sketch est_platform (boot True) (replicate 16201 (pass True)) = Some s \<and>
     refresh s = 16201 \<and>
     resync_step RESYNC_THRESHOLD (pass True) (acquire_step est_platform (pass True) s) = Some m \<and>
     refresh m = 0 \<and> refresh (render_step est_platform (pass True) m) = 0 \<and>
     loop est_platform (pass True) s = Some s' \<and> refresh s' = 0"
proof -
  obtain s0 where s0: "setup_proc est_platform (boot True) = Some s0"
    using setup_proc_boot by blast
  from setup_proc_flags [OF s0] have f0: "bTimeReceived s0" "start s0 = 1" "refresh s0 = 0"
    by (simp_all add: boot_def)
  have "\<exists>s. run_thr est_platform RESYNC_THRESHOLD (replicate 16201 (pass True)) s0 = Some s \<and>
          bTimeReceived s \<and> start s = 1 \<and>
          refresh s = refresh s0 + int (length (replicate 16201 (pass True))) \<and>
          due_log est_platform RESYNC_THRESHOLD (replicate 16201 (pass True)) s0 =
            replicate (length (replicate 16201 (pass True))) False"
    using f0 by (intro run_counts) (simp_all add: RESYNC_THRESHOLD_def)
  then obtain s where s: "run_thr est_platform RESYNC_THRESHOLD (replicate 16201 (pass True)) s0 = Some s"
    "bTimeReceived s" "start s = 1" "refresh s = 16201"
    using f0 by auto
  from s0 s(1) have sk: "sketch est_platform (boot True) (replicate 16201 (pass True)) = Some s"
    by (simp add: sketch_def)
  have due: "resync_due RESYNC_THRESHOLD (acquire_step est_platform (pass True) s)"
    using s by (simp add: resync_due_def acquire_step_flags RESYNC_THRESHOLD_def)
  have "True \<in> set (wifi_polls (pass True))" by (simp add: pass_def)
  then obtain m where m: "reassociate (pass True) (acquire_step est_platform (pass True) s) = Some m"
    using reassociate_None [of "pass True" "acquire_step est_platform (pass True) s"] by auto
  with due have rs: "resync_step RESYNC_THRESHOLD (pass True) (acquire_step est_platform (pass True) s) = Some m"
    by (simp add: resync_step_def)
  from reassociate_Some [OF m] have fm: "bTimeReceived m = False" "refresh m = 0" by simp_all
  from rs have lp: "loop est_platform (pass True) s = Some (emit [Delay 200] (render_step est_platform (pass True) m))"
    by (simp add: loop_def loop_thr_def)
  from refresh_bounded [OF sk, of "pass True" m "emit [Delay 200] (render_step est_platform (pass True) m)"]
    s rs lp fm
  show ?thesis by (simp add: sk render_step_flags)
qed

end
